theory Spec2Isabelle
  imports Complex_Main "HOL-Library.Char_ord" "HOL-Library.List_Lexorder" "HOL-Library.AList"
begin

section \<open>Python floats\<close>

text \<open>
  A Python \<^verbatim>\<open>float\<close> is an IEEE 754 double: a finite value (a rational, the value of
  the double), an infinity or NaN. The sign of a zero is not kept: no function below
  tells \<^verbatim>\<open>-0.0\<close> from \<^verbatim>\<open>0.0\<close> (both are false, equal, and never a divisor).
\<close>

datatype pyfloat = Fin rat | PosInf | NegInf | NaN

text \<open>
  Rounding a rational to the nearest double, ties to even: 53 bits of precision, the
  least exponent of a subnormal is -1074, and a result of magnitude \<open>2^1024\<close> or more
  is an infinity.
\<close>

definition pow2 :: "int \<Rightarrow> rat" where
  "pow2 k = (if 0 \<le> k then 2 ^ nat k else 1 / 2 ^ nat (- k))"

text \<open>
  The number of binary digits of a positive integer, and the integer part of the binary
  logarithm of a positive rational.
\<close>

function bitlen :: "int \<Rightarrow> int" where
  "bitlen n = (if n \<le> 0 then 0 else 1 + bitlen (n div 2))"
  by pat_completeness auto
termination
  by (relation "measure nat") auto

declare bitlen.simps [simp del]

definition ilog2 :: "rat \<Rightarrow> int" where
  "ilog2 a =
     (let n = fst (quotient_of a); d = snd (quotient_of a);
          k = bitlen n - bitlen d
      in if pow2 k \<le> a then k else k - 1)"

definition round_half_even :: "rat \<Rightarrow> int" where
  "round_half_even y =
     (let f = \<lfloor>y\<rfloor>; r = y - of_int f
      in if r < 1 / 2 then f else if 1 / 2 < r then f + 1 else if even f then f else f + 1)"

definition round_double :: "rat \<Rightarrow> pyfloat" where
  "round_double x =
     (if x = 0 then Fin 0
      else (let a = \<bar>x\<bar>;
                q = max (ilog2 a - 52) (- 1074);
                v = of_int (round_half_even (a / pow2 q)) * pow2 q
            in if pow2 1024 \<le> v then (if 0 < x then PosInf else NegInf)
               else Fin (if 0 < x then v else - v)))"

text \<open>
  The comparisons \<^verbatim>\<open>a < b\<close> and \<^verbatim>\<open>a <= b\<close> of floats: false when an operand is NaN.
\<close>

fun flt :: "pyfloat \<Rightarrow> pyfloat \<Rightarrow> bool" where
  "flt NaN b = False"
| "flt a NaN = False"
| "flt (Fin x) (Fin y) = (x < y)"
| "flt a NegInf = False"
| "flt NegInf b = True"
| "flt PosInf b = False"
| "flt a PosInf = True"

fun fle :: "pyfloat \<Rightarrow> pyfloat \<Rightarrow> bool" where
  "fle NaN b = False"
| "fle a NaN = False"
| "fle (Fin x) (Fin y) = (x \<le> y)"
| "fle NegInf b = True"
| "fle a PosInf = True"
| "fle a b = False"

text \<open>
  The arithmetic of floats: \<^verbatim>\<open>a - b\<close>, \<^verbatim>\<open>a * b\<close> and \<^verbatim>\<open>a / b\<close> (for a divisor
  that is not zero; Python raises \<^verbatim>\<open>ZeroDivisionError\<close> on a zero divisor before
  dividing). A finite result is rounded; an overflow gives an infinity.
\<close>

fun fsub :: "pyfloat \<Rightarrow> pyfloat \<Rightarrow> pyfloat" where
  "fsub NaN b = NaN"
| "fsub a NaN = NaN"
| "fsub (Fin x) (Fin y) = round_double (x - y)"
| "fsub PosInf PosInf = NaN"
| "fsub NegInf NegInf = NaN"
| "fsub PosInf b = PosInf"
| "fsub NegInf b = NegInf"
| "fsub a PosInf = NegInf"
| "fsub a NegInf = PosInf"

fun fneg :: "pyfloat \<Rightarrow> pyfloat" where
  "fneg (Fin x) = Fin (- x)"
| "fneg PosInf = NegInf"
| "fneg NegInf = PosInf"
| "fneg NaN = NaN"

text \<open>The sign of a float that is not NaN: -1, 0 or 1.\<close>

fun fsign :: "pyfloat \<Rightarrow> int" where
  "fsign (Fin x) = (if x < 0 then - 1 else if x = 0 then 0 else 1)"
| "fsign PosInf = 1"
| "fsign NegInf = - 1"
| "fsign NaN = 0"

definition inf_of_sign :: "int \<Rightarrow> pyfloat" where
  "inf_of_sign s = (if s < 0 then NegInf else PosInf)"

fun fmul :: "pyfloat \<Rightarrow> pyfloat \<Rightarrow> pyfloat" where
  "fmul NaN b = NaN"
| "fmul a NaN = NaN"
| "fmul (Fin x) (Fin y) = round_double (x * y)"
| "fmul a b = (if fsign a * fsign b = 0 then NaN else inf_of_sign (fsign a * fsign b))"

fun fdiv :: "pyfloat \<Rightarrow> pyfloat \<Rightarrow> pyfloat" where
  "fdiv NaN b = NaN"
| "fdiv a NaN = NaN"
| "fdiv (Fin x) (Fin y) = round_double (x / y)"
| "fdiv (Fin x) b = Fin 0"
| "fdiv a (Fin y) = inf_of_sign (fsign a * (if y < 0 then - 1 else 1))"
| "fdiv a b = NaN"

section \<open>Python values\<close>

text \<open>
  The records that flow through the pipelines are plain Python dictionaries holding
  loosely typed values. A value is one of the JSON-like shapes below: a Python
  \<^verbatim>\<open>int\<close> is an \<^typ>\<open>int\<close>, a Python \<^verbatim>\<open>float\<close> is a \<^typ>\<open>pyfloat\<close>.
  A dictionary is an association list in insertion order; its keys are strings.
  A character of a \<^typ>\<open>string\<close> stands for the code point of the same number,
  so the strings of the model are the Python strings over code points below 256.
\<close>

datatype pyval =
    PNone
  | PBool bool
  | PInt int
  | PFloat pyfloat
  | PStr string
  | PList "pyval list"
  | PDict "(string \<times> pyval) list"

type_synonym pydict = "(string \<times> pyval) list"

datatype pyerr = DropItem string | ValueError | TypeError | OverflowError | ZeroDivisionError

text \<open>Truthiness, as \<^verbatim>\<open>bool(v)\<close> and \<^verbatim>\<open>if v:\<close> compute it (NaN is true).\<close>

fun truthy :: "pyval \<Rightarrow> bool" where
  "truthy PNone = False"
| "truthy (PBool b) = b"
| "truthy (PInt i) = (i \<noteq> 0)"
| "truthy (PFloat f) = (f \<noteq> Fin 0)"
| "truthy (PStr s) = (s \<noteq> [])"
| "truthy (PList xs) = (xs \<noteq> [])"
| "truthy (PDict d) = (d \<noteq> [])"

text \<open>
  The builtins \<^verbatim>\<open>float(s)\<close> and \<^verbatim>\<open>int(s)\<close> on a string, and the clock, are not code
  of the repository: they are taken as parameters. \<open>None\<close> is a \<^verbatim>\<open>ValueError\<close>.
\<close>

record env =
  float_of_str :: "string \<Rightarrow> pyfloat option"
  int_of_str :: "string \<Rightarrow> int option"
  time_now :: int

text \<open>
  \<^verbatim>\<open>float(i)\<close> of an integer rounds to the nearest double and raises
  \<^verbatim>\<open>OverflowError\<close> when that is beyond the doubles.
\<close>

definition float_of_int :: "int \<Rightarrow> pyerr + pyfloat" where
  "float_of_int i =
     (case round_double (of_int i) of
        Fin v \<Rightarrow> Inr (Fin v)
      | other \<Rightarrow> Inl OverflowError)"

fun py_float :: "env \<Rightarrow> pyval \<Rightarrow> pyerr + pyfloat" where
  "py_float e PNone = Inl TypeError"
| "py_float e (PBool b) = Inr (Fin (if b then 1 else 0))"
| "py_float e (PInt i) = float_of_int i"
| "py_float e (PFloat f) = Inr f"
| "py_float e (PStr s) = (case float_of_str e s of None \<Rightarrow> Inl ValueError | Some f \<Rightarrow> Inr f)"
| "py_float e (PList xs) = Inl TypeError"
| "py_float e (PDict d) = Inl TypeError"

text \<open>
  \<^verbatim>\<open>int(x)\<close> truncates a float towards zero; it raises \<^verbatim>\<open>ValueError\<close> on NaN and
  \<^verbatim>\<open>OverflowError\<close> on an infinity.
\<close>

definition trunc :: "rat \<Rightarrow> int" where
  "trunc r = (if 0 \<le> r then \<lfloor>r\<rfloor> else \<lceil>r\<rceil>)"

fun int_of_float :: "pyfloat \<Rightarrow> pyerr + int" where
  "int_of_float (Fin r) = Inr (trunc r)"
| "int_of_float NaN = Inl ValueError"
| "int_of_float f = Inl OverflowError"

fun py_int :: "env \<Rightarrow> pyval \<Rightarrow> pyerr + int" where
  "py_int e PNone = Inl TypeError"
| "py_int e (PBool b) = Inr (if b then 1 else 0)"
| "py_int e (PInt i) = Inr i"
| "py_int e (PFloat f) = int_of_float f"
| "py_int e (PStr s) = (case int_of_str e s of None \<Rightarrow> Inl ValueError | Some i \<Rightarrow> Inr i)"
| "py_int e (PList xs) = Inl TypeError"
| "py_int e (PDict d) = Inl TypeError"

text \<open>
  An environment for concrete runs: no string parses as a number, the clock reads 1700000000.
\<close>

definition env0 :: env where
  "env0 = \<lparr>float_of_str = (\<lambda>s. None), int_of_str = (\<lambda>s. None), time_now = 1700000000\<rparr>"

subsection \<open>Numbers\<close>

text \<open>
  A number is an \<^verbatim>\<open>int\<close> or a \<^verbatim>\<open>float\<close> (a \<^verbatim>\<open>bool\<close> counts as the integer 0 or 1).
  Python compares an integer with a float by their exact values.
\<close>

datatype pynum = NInt int | NFloat pyfloat

fun num_of :: "pyval \<Rightarrow> pynum option" where
  "num_of (PBool b) = Some (NInt (if b then 1 else 0))"
| "num_of (PInt i) = Some (NInt i)"
| "num_of (PFloat f) = Some (NFloat f)"
| "num_of v = None"

fun exact :: "pynum \<Rightarrow> pyfloat" where
  "exact (NInt i) = Fin (of_int i)"
| "exact (NFloat f) = f"

definition num_lt :: "pynum \<Rightarrow> pynum \<Rightarrow> bool" where
  "num_lt a b = flt (exact a) (exact b)"

definition num_le :: "pynum \<Rightarrow> pynum \<Rightarrow> bool" where
  "num_le a b = fle (exact a) (exact b)"

fun num_truthy :: "pynum \<Rightarrow> bool" where
  "num_truthy (NInt i) = (i \<noteq> 0)"
| "num_truthy (NFloat f) = (f \<noteq> Fin 0)"

subsection \<open>Dictionaries\<close>

text \<open>
  \<^verbatim>\<open>k in d\<close>, \<^verbatim>\<open>d.get(k)\<close> (\<^verbatim>\<open>None\<close> for a missing key) and \<^verbatim>\<open>d[k] = v\<close>
  (a new key goes last, an existing key keeps its place). The pipelines read
  \<^verbatim>\<open>adapter[k]\<close> only after \<^verbatim>\<open>adapter.get(k)\<close> was seen to be set, so the
  read is \<open>dict_get\<close> as well. \<^verbatim>\<open>d.update(d2)\<close> stores the pairs of \<^verbatim>\<open>d2\<close> in turn.
\<close>

definition dict_has :: "('k \<times> 'v) list \<Rightarrow> 'k \<Rightarrow> bool" where
  "dict_has d k = (map_of d k \<noteq> None)"

definition dict_get :: "pydict \<Rightarrow> string \<Rightarrow> pyval" where
  "dict_get d k = (case map_of d k of None \<Rightarrow> PNone | Some v \<Rightarrow> v)"

definition dict_set :: "('k \<times> 'v) list \<Rightarrow> 'k \<Rightarrow> 'v \<Rightarrow> ('k \<times> 'v) list" where
  "dict_set d k v = AList.update k v d"

definition dict_update :: "('k \<times> 'v) list \<Rightarrow> ('k \<times> 'v) list \<Rightarrow> ('k \<times> 'v) list" where
  "dict_update d d2 = fold (\<lambda>(k, v) acc. dict_set acc k v) d2 d"

subsection \<open>Strings\<close>

text \<open>
  \<^verbatim>\<open>str.isspace\<close> on one character, for the code points below 256; \<^verbatim>\<open>s.strip()\<close>,
  \<^verbatim>\<open>s.split()\<close> (on runs of whitespace, no empty pieces), \<^verbatim>\<open>sep.join(xs)\<close> and
  \<^verbatim>\<open>s.lower()\<close>.
\<close>

definition is_space :: "char \<Rightarrow> bool" where
  "is_space c = (of_char c \<in> {9::nat, 10, 11, 12, 13, 28, 29, 30, 31, 32, 133, 160})"

definition py_strip :: "string \<Rightarrow> string" where
  "py_strip s = rev (dropWhile is_space (rev (dropWhile is_space s)))"

fun split_aux :: "string \<Rightarrow> string \<Rightarrow> string list" where
  "split_aux cur [] = (if cur = [] then [] else [rev cur])"
| "split_aux cur (c # cs) =
     (if is_space c then (if cur = [] then split_aux [] cs else rev cur # split_aux [] cs)
      else split_aux (c # cur) cs)"

definition py_split :: "string \<Rightarrow> string list" where
  "py_split s = split_aux [] s"

fun py_join :: "string \<Rightarrow> string list \<Rightarrow> string" where
  "py_join sep [] = []"
| "py_join sep [x] = x"
| "py_join sep (x # y # ys) = x @ sep @ py_join sep (y # ys)"

definition lower_char :: "char \<Rightarrow> char" where
  "lower_char c =
     (let n = (of_char c :: nat)
      in if (65 \<le> n \<and> n \<le> 90) \<or> (192 \<le> n \<and> n \<le> 222 \<and> n \<noteq> 215) then char_of (n + 32) else c)"

definition py_lower :: "string \<Rightarrow> string" where
  "py_lower s = map lower_char s"

text \<open>\<^verbatim>\<open>sub in s\<close> and \<^verbatim>\<open>s.startswith(p)\<close>.\<close>

fun startswith :: "string \<Rightarrow> string \<Rightarrow> bool" where
  "startswith s [] = True"
| "startswith [] (p # ps) = False"
| "startswith (c # cs) (p # ps) = (c = p \<and> startswith cs ps)"

fun contains :: "string \<Rightarrow> string \<Rightarrow> bool" where
  "contains [] sub = (sub = [])"
| "contains (c # cs) sub = (startswith (c # cs) sub \<or> contains cs sub)"

text \<open>
  \<^verbatim>\<open>list(dict.fromkeys(xs))\<close> on strings: the first occurrence of each element, in order.
\<close>

fun dedup_first :: "'a list \<Rightarrow> 'a list \<Rightarrow> 'a list" where
  "dedup_first seen [] = []"
| "dedup_first seen (x # xs) =
     (if x \<in> set seen then dedup_first seen xs else x # dedup_first (x # seen) xs)"

section \<open>Scalar normalizers (items.py, alkoteka\_spider.py)\<close>

text \<open>
  The arithmetic of Python numbers that \<^verbatim>\<open>calculate_discount\<close> uses. Two integers
  subtract and multiply exactly; \<^verbatim>\<open>a / b\<close> of two integers is the exact quotient
  rounded to a double (\<^verbatim>\<open>OverflowError\<close> when that is beyond the doubles); when an
  operand is a float, an integer operand is converted with \<^verbatim>\<open>float()\<close> first. A zero
  divisor raises \<^verbatim>\<open>ZeroDivisionError\<close>.
\<close>

fun to_float :: "pynum \<Rightarrow> pyerr + pyfloat" where
  "to_float (NInt i) = float_of_int i"
| "to_float (NFloat f) = Inr f"

definition float_op :: "(pyfloat \<Rightarrow> pyfloat \<Rightarrow> pyfloat) \<Rightarrow> pynum \<Rightarrow> pynum \<Rightarrow> pyerr + pynum" where
  "float_op f a b =
     (case to_float a of
        Inl err \<Rightarrow> Inl err
      | Inr x \<Rightarrow> (case to_float b of Inl err \<Rightarrow> Inl err | Inr y \<Rightarrow> Inr (NFloat (f x y))))"

fun py_sub :: "pynum \<Rightarrow> pynum \<Rightarrow> pyerr + pynum" where
  "py_sub (NInt a) (NInt b) = Inr (NInt (a - b))"
| "py_sub a b = float_op fsub a b"

fun py_mul :: "pynum \<Rightarrow> pynum \<Rightarrow> pyerr + pynum" where
  "py_mul (NInt a) (NInt b) = Inr (NInt (a * b))"
| "py_mul a b = float_op fmul a b"

fun py_truediv :: "pynum \<Rightarrow> pynum \<Rightarrow> pyerr + pynum" where
  "py_truediv (NInt a) (NInt b) =
     (if b = 0 then Inl ZeroDivisionError
      else (case round_double (of_int a / of_int b) of
              Fin v \<Rightarrow> Inr (NFloat (Fin v))
            | other \<Rightarrow> Inl OverflowError))"
| "py_truediv a b =
     (case to_float a of
        Inl err \<Rightarrow> Inl err
      | Inr x \<Rightarrow>
         (case to_float b of
            Inl err \<Rightarrow> Inl err
          | Inr y \<Rightarrow> if y = Fin 0 then Inl ZeroDivisionError else Inr (NFloat (fdiv x y))))"

text \<open>
  \<^verbatim>\<open>min(a, b)\<close> is \<^verbatim>\<open>a\<close> unless \<^verbatim>\<open>b < a\<close>; \<^verbatim>\<open>max(a, b)\<close> is \<^verbatim>\<open>a\<close> unless
  \<^verbatim>\<open>b > a\<close>; \<^verbatim>\<open>int(x)\<close> of a number.
\<close>

definition py_min :: "pynum \<Rightarrow> pynum \<Rightarrow> pynum" where
  "py_min a b = (if num_lt b a then b else a)"

definition py_max :: "pynum \<Rightarrow> pynum \<Rightarrow> pynum" where
  "py_max a b = (if num_lt a b then b else a)"

fun int_of_num :: "pynum \<Rightarrow> pyerr + int" where
  "int_of_num (NInt i) = Inr i"
| "int_of_num (NFloat f) = int_of_float f"

text \<open>
  \<^verbatim>\<open>
  def calculate_discount(original: float, current: float) -> Optional[int]:
      if not original or not current or original <= 0:
          return None
      discount = ((original - current) / original) * 100
      return int(max(0, min(100, discount)))
  \<close>
  An operand is a number or \<^verbatim>\<open>None\<close>. The spider's method
  \<^verbatim>\<open>_calculate_discount\<close> has the same body.
\<close>

definition calculate_discount :: "pynum option \<Rightarrow> pynum option \<Rightarrow> pyerr + int option" where
  "calculate_discount original current =
     (case original of
        None \<Rightarrow> Inr None
      | Some orig \<Rightarrow>
         (case current of
            None \<Rightarrow> Inr None
          | Some cur \<Rightarrow>
             if \<not> num_truthy orig \<or> \<not> num_truthy cur \<or> num_le orig (NInt 0) then Inr None
             else (case py_sub orig cur of
                     Inl err \<Rightarrow> Inl err
                   | Inr s \<Rightarrow>
                      (case py_truediv s orig of
                         Inl err \<Rightarrow> Inl err
                       | Inr q \<Rightarrow>
                          (case py_mul q (NInt 100) of
                             Inl err \<Rightarrow> Inl err
                           | Inr discount \<Rightarrow>
                              (case int_of_num (py_max (NInt 0) (py_min (NInt 100) discount)) of
                                 Inl err \<Rightarrow> Inl err
                               | Inr n \<Rightarrow> Inr (Some n)))))))"

definition spider_calculate_discount :: "pynum option \<Rightarrow> pynum option \<Rightarrow> pyerr + int option" where
  "spider_calculate_discount original current =
     (case original of
        None \<Rightarrow> Inr None
      | Some orig \<Rightarrow>
         (case current of
            None \<Rightarrow> Inr None
          | Some cur \<Rightarrow>
             if \<not> num_truthy orig \<or> \<not> num_truthy cur \<or> num_le orig (NInt 0) then Inr None
             else (case py_sub orig cur of
                     Inl err \<Rightarrow> Inl err
                   | Inr s \<Rightarrow>
                      (case py_truediv s orig of
                         Inl err \<Rightarrow> Inl err
                       | Inr q \<Rightarrow>
                          (case py_mul q (NInt 100) of
                             Inl err \<Rightarrow> Inl err
                           | Inr discount \<Rightarrow>
                              (case int_of_num (py_max (NInt 0) (py_min (NInt 100) discount)) of
                                 Inl err \<Rightarrow> Inl err
                               | Inr n \<Rightarrow> Inr (Some n)))))))"

text \<open>
  The specification's reading: an operand is absent or zero; the clamp of a number to a
  range (of an infinity, the bound on its side; of NaN, nothing); rounding down.
\<close>

definition absent_or_zero :: "pynum option \<Rightarrow> bool" where
  "absent_or_zero x = (case x of None \<Rightarrow> True | Some n \<Rightarrow> exact n = Fin 0)"

definition clamp :: "rat \<Rightarrow> rat \<Rightarrow> pyfloat \<Rightarrow> rat option" where
  "clamp lo hi x =
     (case x of
        Fin v \<Rightarrow> Some (max lo (min hi v))
      | PosInf \<Rightarrow> Some hi
      | NegInf \<Rightarrow> Some lo
      | NaN \<Rightarrow> None)"

definition round_down :: "rat \<Rightarrow> int" where
  "round_down x = \<lfloor>x\<rfloor>"

section \<open>Proxy pool (middlewares.py, ProxyMiddleware)\<close>














section \<open>Record normalization pipeline (pipelines.py)\<close>

text \<open>
  An item is a dictionary (the tests of the repository pass plain dictionaries, for
  which \<^verbatim>\<open>ItemAdapter\<close> reads and writes the dictionary itself). A pipeline stage
  returns the item or raises: \<^verbatim>\<open>DropItem\<close> from the validation, or the error of a
  conversion that no \<^verbatim>\<open>try\<close> encloses or no \<^verbatim>\<open>except\<close> clause names.
\<close>

subsection \<open>ValidationPipeline.process\_item\<close>

definition required_fields :: "string list" where
  "required_fields = [''product_id'', ''name'', ''product_url'', ''scraped_at'']"

text \<open>\<^verbatim>\<open>field not in adapter or not adapter.get(field)\<close>\<close>

definition missing_field :: "pydict \<Rightarrow> string \<Rightarrow> bool" where
  "missing_field item field = (\<not> dict_has item field \<or> \<not> truthy (dict_get item field))"

definition required_errors :: "pydict \<Rightarrow> string list" where
  "required_errors item =
     map (\<lambda>field. ''Missing required field: '' @ field) (filter (missing_field item) required_fields)"

definition drop_message :: "string list \<Rightarrow> string" where
  "drop_message errors = ''Validation failed: '' @ py_join ''; '' errors"

text \<open>
  \<^verbatim>\<open>
  if adapter.get('price_data'):
      price_data = adapter['price_data']
      if isinstance(price_data, dict):
          current = price_data.get('current')
          original = price_data.get('original')
          if current is not None and original is not None:
              if current and original and float(current) > float(original):
                  adapter['price_data'] = {**price_data, 'current': original}
  \<close>
\<close>

definition fix_price_data :: "env \<Rightarrow> pydict \<Rightarrow> pyerr + pydict" where
  "fix_price_data e item =
     (if truthy (dict_get item ''price_data'') then
        (case dict_get item ''price_data'' of
           PDict price_data \<Rightarrow>
             (let current = dict_get price_data ''current'';
                  original = dict_get price_data ''original''
              in if current \<noteq> PNone \<and> original \<noteq> PNone then
                   (if truthy current \<and> truthy original then
                      (case py_float e current of
                         Inl err \<Rightarrow> Inl err
                       | Inr c \<Rightarrow>
                          (case py_float e original of
                             Inl err \<Rightarrow> Inl err
                           | Inr orig \<Rightarrow>
                               if flt orig c then
                                 Inr (dict_set item ''price_data''
                                        (PDict (dict_set price_data ''current'' original)))
                               else Inr item))
                    else Inr item)
                 else Inr item)
         | _ \<Rightarrow> Inr item)
      else Inr item)"

text \<open>
  \<^verbatim>\<open>
  if adapter.get('stock_data'):
      stock_data = adapter['stock_data']
      if isinstance(stock_data, dict):
          count = stock_data.get('count')
          if count is not None and isinstance(count, (int, float)):
              if count < 0:
                  adapter['stock_data'] = {**stock_data, 'count': 0}
  \<close>
  A \<^verbatim>\<open>bool\<close> is an \<^verbatim>\<open>int\<close> for \<^verbatim>\<open>isinstance\<close>.
\<close>

definition fix_stock_data :: "pydict \<Rightarrow> pydict" where
  "fix_stock_data item =
     (if truthy (dict_get item ''stock_data'') then
        (case dict_get item ''stock_data'' of
           PDict stock_data \<Rightarrow>
             (case num_of (dict_get stock_data ''count'') of
                Some count \<Rightarrow>
                  if num_lt count (NInt 0) then
                    dict_set item ''stock_data'' (PDict (dict_set stock_data ''count'' (PInt 0)))
                  else item
              | None \<Rightarrow> item)
         | _ \<Rightarrow> item)
      else item)"

text \<open>
  \<^verbatim>\<open>
  if adapter.get('price') is not None and adapter.get('original_price') is not None:
      price = float(adapter['price'])
      original = float(adapter['original_price'])
      if price > original:
          adapter['price'] = original
  \<close>
\<close>

definition fix_price :: "env \<Rightarrow> pydict \<Rightarrow> pyerr + pydict" where
  "fix_price e item =
     (if dict_get item ''price'' \<noteq> PNone \<and> dict_get item ''original_price'' \<noteq> PNone then
        (case py_float e (dict_get item ''price'') of
           Inl err \<Rightarrow> Inl err
         | Inr price \<Rightarrow>
            (case py_float e (dict_get item ''original_price'') of
               Inl err \<Rightarrow> Inl err
             | Inr original \<Rightarrow>
                 if flt original price then Inr (dict_set item ''price'' (PFloat original))
                 else Inr item))
      else Inr item)"

definition validation_process_item :: "env \<Rightarrow> pydict \<Rightarrow> pyerr + pydict" where
  "validation_process_item e item =
     (let errors = required_errors item
      in if errors \<noteq> [] then Inl (DropItem (drop_message errors))
         else (case fix_price_data e item of
                 Inl err \<Rightarrow> Inl err
               | Inr item1 \<Rightarrow> fix_price e (fix_stock_data item1)))"

subsection \<open>DefaultValuesPipeline.process\_item\<close>

definition defaults :: "(string \<times> pyval) list" where
  "defaults =
     [(''marketing_tags'', PList []),
      (''attributes'', PDict []),
      (''image_urls'', PList []),
      (''tags'', PList []),
      (''validation_errors'', PList []),
      (''scraper_notes'', PStr []),
      (''is_valid'', PBool True),
      (''review_count'', PInt 0),
      (''stock_quantity'', PInt 0),
      (''currency'', PStr ''RUB''),
      (''region'', PStr ''krasnodar''),
      (''source'', PStr ''alkoteka.com'')]"

text \<open>
  \<^verbatim>\<open>if key not in d or d.get(key) is None: d[key] = default\<close>, for the item and for
  the nested dictionaries; then the loop over a table of defaults.
\<close>

definition fill_default :: "pydict \<Rightarrow> string \<times> pyval \<Rightarrow> pydict" where
  "fill_default d kv =
     (if \<not> dict_has d (fst kv) \<or> dict_get d (fst kv) = PNone then dict_set d (fst kv) (snd kv)
      else d)"

definition fill_defaults :: "(string \<times> pyval) list \<Rightarrow> pydict \<Rightarrow> pydict" where
  "fill_defaults table d = fold (\<lambda>kv acc. fill_default acc kv) table d"

definition default_scraped_at :: "env \<Rightarrow> pydict \<Rightarrow> pydict" where
  "default_scraped_at e item =
     (if dict_get item ''scraped_at'' = PNone then dict_set item ''scraped_at'' (PInt (time_now e))
      else item)"

text \<open>
  \<^verbatim>\<open>
  if adapter.get('price_data'):
      price_data = adapter['price_data']
      if isinstance(price_data, dict):
          if 'currency' not in price_data or not price_data.get('currency'):
              price_data['currency'] = 'RUB'
          if 'sale_tag' not in price_data:
              price_data['sale_tag'] = None
  \<close>
  The nested dictionary is changed in place, so the item holds the changed one.
\<close>

definition default_price_data :: "pydict \<Rightarrow> pydict" where
  "default_price_data item =
     (if truthy (dict_get item ''price_data'') then
        (case dict_get item ''price_data'' of
           PDict price_data \<Rightarrow>
             (let pd1 = (if \<not> dict_has price_data ''currency''
                            \<or> \<not> truthy (dict_get price_data ''currency'')
                         then dict_set price_data ''currency'' (PStr ''RUB'') else price_data);
                  pd2 = (if \<not> dict_has pd1 ''sale_tag'' then dict_set pd1 ''sale_tag'' PNone
                         else pd1)
              in dict_set item ''price_data'' (PDict pd2))
         | _ \<Rightarrow> item)
      else item)"

definition defaults_assets :: "(string \<times> pyval) list" where
  "defaults_assets =
     [(''main_image'', PNone),
      (''gallery_images'', PList []),
      (''view_360'', PList []),
      (''video'', PList []),
      (''cached_images'', PList [])]"

definition default_assets :: "pydict \<Rightarrow> pydict" where
  "default_assets item =
     (if truthy (dict_get item ''assets'') then
        (case dict_get item ''assets'' of
           PDict assets \<Rightarrow> dict_set item ''assets'' (PDict (fill_defaults defaults_assets assets))
         | _ \<Rightarrow> item)
      else item)"

definition defaults_stock :: "(string \<times> pyval) list" where
  "defaults_stock =
     [(''in_stock'', PBool False),
      (''count'', PInt 0),
      (''status'', PStr ''unknown''),
      (''available_regions'', PList [])]"

definition default_stock_data :: "pydict \<Rightarrow> pydict" where
  "default_stock_data item =
     (if truthy (dict_get item ''stock_data'') then
        (case dict_get item ''stock_data'' of
           PDict stock_data \<Rightarrow>
             dict_set item ''stock_data'' (PDict (fill_defaults defaults_stock stock_data))
         | _ \<Rightarrow> item)
      else item)"

definition defaults_process_item :: "env \<Rightarrow> pydict \<Rightarrow> pydict" where
  "defaults_process_item e item =
     default_stock_data (default_assets (default_price_data
       (default_scraped_at e (fill_defaults defaults item))))"

subsection \<open>DataCleaningPipeline.process\_item\<close>

definition string_fields :: "string list" where
  "string_fields =
     [''name'', ''brand'', ''description'', ''tasting_notes'', ''food_pairing'', ''category'']"

text \<open>\<^verbatim>\<open>' '.join(s.split())\<close>\<close>

definition collapse_ws :: "string \<Rightarrow> string" where
  "collapse_ws s = py_join '' '' (py_split s)"

text \<open>
  \<^verbatim>\<open>
  for field in string_fields:
      if field in adapter and isinstance(adapter.get(field), str):
          cleaned = ' '.join(adapter[field].split())
          if cleaned != adapter[field]:
              adapter[field] = cleaned
  \<close>
\<close>

definition clean_string_field :: "pydict \<Rightarrow> string \<Rightarrow> pydict" where
  "clean_string_field item field =
     (if dict_has item field then
        (case dict_get item field of
           PStr s \<Rightarrow>
             (let cleaned = collapse_ws s
              in if cleaned \<noteq> s then dict_set item field (PStr cleaned) else item)
         | _ \<Rightarrow> item)
      else item)"

definition clean_string_fields :: "pydict \<Rightarrow> pydict" where
  "clean_string_fields item = fold (\<lambda>field acc. clean_string_field acc field) string_fields item"

text \<open>\<^verbatim>\<open>tag.strip() for tag in tags if tag and isinstance(tag, str)\<close>\<close>

fun tag_strings :: "pyval list \<Rightarrow> string list" where
  "tag_strings [] = []"
| "tag_strings (PStr s # tags) =
     (if s \<noteq> [] then py_strip s # tag_strings tags else tag_strings tags)"
| "tag_strings (v # tags) = tag_strings tags"

text \<open>
  \<^verbatim>\<open>
  if adapter.get('marketing_tags') and isinstance(adapter['marketing_tags'], list):
      tags = adapter['marketing_tags']
      cleaned_tags = list(set(tag.strip() for tag in tags if tag and isinstance(tag, str)))
      adapter['marketing_tags'] = sorted(cleaned_tags)
  \<close>
  The order in which a \<^verbatim>\<open>set\<close> lists its elements does not reach the result: sorting
  a list of distinct strings gives one result whatever its order.
\<close>

definition clean_marketing_tags :: "pydict \<Rightarrow> pydict" where
  "clean_marketing_tags item =
     (if truthy (dict_get item ''marketing_tags'') then
        (case dict_get item ''marketing_tags'' of
           PList tags \<Rightarrow>
             dict_set item ''marketing_tags'' (PList (map PStr (sort (remdups (tag_strings tags)))))
         | _ \<Rightarrow> item)
      else item)"

text \<open>
  \<^verbatim>\<open>
  if adapter.get('attributes') and isinstance(adapter['attributes'], dict):
      attributes = adapter['attributes']
      cleaned_attrs = {}
      for key, value in attributes.items():
          if key and value is not None:
              if isinstance(value, str):
                  cleaned_attrs[key] = ' '.join(value.split())
              elif isinstance(value, list):
                  cleaned_attrs[key] = [v for v in value if v]
              else:
                  cleaned_attrs[key] = value
      adapter['attributes'] = cleaned_attrs
  \<close>
\<close>

fun clean_attr_value :: "pyval \<Rightarrow> pyval" where
  "clean_attr_value (PStr s) = PStr (collapse_ws s)"
| "clean_attr_value (PList vs) = PList (filter truthy vs)"
| "clean_attr_value v = v"

definition clean_attr :: "string \<times> pyval \<Rightarrow> pydict \<Rightarrow> pydict" where
  "clean_attr kv cleaned_attrs =
     (if fst kv \<noteq> [] \<and> snd kv \<noteq> PNone then dict_set cleaned_attrs (fst kv) (clean_attr_value (snd kv))
      else cleaned_attrs)"

definition clean_attributes :: "pydict \<Rightarrow> pydict" where
  "clean_attributes item =
     (if truthy (dict_get item ''attributes'') then
        (case dict_get item ''attributes'' of
           PDict attributes \<Rightarrow> dict_set item ''attributes'' (PDict (fold clean_attr attributes []))
         | _ \<Rightarrow> item)
      else item)"

text \<open>
  \<^verbatim>\<open>list(dict.fromkeys(urls))\<close> on arbitrary values: a list or a dictionary is not
  hashable (\<^verbatim>\<open>TypeError\<close>); numbers and booleans are one key when they are equal as
  numbers; the first element with a key is kept. A NaN equals nothing, itself included:
  two NaN elements are taken to be two objects, hence two keys.
\<close>

datatype pykey = KNone | KNum rat | KPosInf | KNegInf | KNaN | KStr string

fun hash_key :: "pyval \<Rightarrow> pykey option" where
  "hash_key PNone = Some KNone"
| "hash_key (PBool b) = Some (KNum (if b then 1 else 0))"
| "hash_key (PInt i) = Some (KNum (of_int i))"
| "hash_key (PFloat (Fin r)) = Some (KNum r)"
| "hash_key (PFloat PosInf) = Some KPosInf"
| "hash_key (PFloat NegInf) = Some KNegInf"
| "hash_key (PFloat NaN) = Some KNaN"
| "hash_key (PStr s) = Some (KStr s)"
| "hash_key (PList xs) = None"
| "hash_key (PDict d) = None"

fun fromkeys :: "pykey list \<Rightarrow> pyval list \<Rightarrow> pyerr + pyval list" where
  "fromkeys seen [] = Inr []"
| "fromkeys seen (v # vs) =
     (case hash_key v of
        None \<Rightarrow> Inl TypeError
      | Some k \<Rightarrow>
          if k \<noteq> KNaN \<and> k \<in> set seen then fromkeys seen vs
          else (case fromkeys (k # seen) vs of Inl err \<Rightarrow> Inl err | Inr r \<Rightarrow> Inr (v # r)))"

text \<open>
  \<^verbatim>\<open>
  if adapter.get('image_urls') and isinstance(adapter['image_urls'], list):
      urls = adapter['image_urls']
      unique_urls = list(dict.fromkeys(urls))
      adapter['image_urls'] = unique_urls
  \<close>
\<close>

definition clean_image_urls :: "pydict \<Rightarrow> pyerr + pydict" where
  "clean_image_urls item =
     (if truthy (dict_get item ''image_urls'') then
        (case dict_get item ''image_urls'' of
           PList urls \<Rightarrow>
             (case fromkeys [] urls of
                Inl err \<Rightarrow> Inl err
              | Inr unique_urls \<Rightarrow> Inr (dict_set item ''image_urls'' (PList unique_urls)))
         | _ \<Rightarrow> Inr item)
      else Inr item)"

text \<open>
  \<^verbatim>\<open>
  if adapter.get('tags') and isinstance(adapter['tags'], list):
      tags = adapter['tags']
      unique_tags = list(dict.fromkeys(tag.strip() for tag in tags if tag and isinstance(tag, str)))
      adapter['tags'] = sorted(unique_tags)
  \<close>
\<close>

definition clean_tags :: "pydict \<Rightarrow> pydict" where
  "clean_tags item =
     (if truthy (dict_get item ''tags'') then
        (case dict_get item ''tags'' of
           PList tags \<Rightarrow>
             dict_set item ''tags'' (PList (map PStr (sort (dedup_first [] (tag_strings tags)))))
         | _ \<Rightarrow> item)
      else item)"

text \<open>
  \<^verbatim>\<open>
  if 'gallery_images' in assets and isinstance(assets['gallery_images'], list):
      gallery = assets['gallery_images']
      unique_gallery = list(dict.fromkeys(gallery))
      assets['gallery_images'] = unique_gallery
  \<close>
  and the same for \<^verbatim>\<open>view_360\<close>, \<^verbatim>\<open>video\<close> and \<^verbatim>\<open>cached_images\<close>, in that order.
\<close>

definition dedup_asset :: "string \<Rightarrow> pydict \<Rightarrow> pyerr + pydict" where
  "dedup_asset key assets =
     (if dict_has assets key then
        (case dict_get assets key of
           PList xs \<Rightarrow>
             (case fromkeys [] xs of
                Inl err \<Rightarrow> Inl err
              | Inr unique \<Rightarrow> Inr (dict_set assets key (PList unique)))
         | _ \<Rightarrow> Inr assets)
      else Inr assets)"

definition clean_assets :: "pydict \<Rightarrow> pyerr + pydict" where
  "clean_assets item =
     (if truthy (dict_get item ''assets'') then
        (case dict_get item ''assets'' of
           PDict assets \<Rightarrow>
             (case dedup_asset ''gallery_images'' assets of
                Inl err \<Rightarrow> Inl err
              | Inr a1 \<Rightarrow>
                 (case dedup_asset ''view_360'' a1 of
                    Inl err \<Rightarrow> Inl err
                  | Inr a2 \<Rightarrow>
                     (case dedup_asset ''video'' a2 of
                        Inl err \<Rightarrow> Inl err
                      | Inr a3 \<Rightarrow>
                         (case dedup_asset ''cached_images'' a3 of
                            Inl err \<Rightarrow> Inl err
                          | Inr a4 \<Rightarrow> Inr (dict_set item ''assets'' (PDict a4))))))
         | _ \<Rightarrow> Inr item)
      else Inr item)"

text \<open>
  \<^verbatim>\<open>
  if adapter.get('description'):
      desc = adapter['description']
      if isinstance(desc, str):
          cleaned_desc = desc.replace('\r', '').replace('\n', ' ')
          cleaned_desc = ' '.join(cleaned_desc.split())
          adapter['description'] = cleaned_desc
  \<close>
\<close>

definition clean_description :: "pydict \<Rightarrow> pydict" where
  "clean_description item =
     (if truthy (dict_get item ''description'') then
        (case dict_get item ''description'' of
           PStr desc \<Rightarrow>
             (let cleaned_desc =
                    map (\<lambda>c. if c = CHR 0x0A then CHR '' '' else c) (filter (\<lambda>c. c \<noteq> CHR 0x0D) desc)
              in dict_set item ''description'' (PStr (collapse_ws cleaned_desc)))
         | _ \<Rightarrow> item)
      else item)"

text \<open>
  \<^verbatim>\<open>
  if adapter.get('price') is not None:
      try:
          price = float(adapter['price'])
          if price < 0:
              adapter['price'] = 0
      except (ValueError, TypeError):
          adapter['price'] = None
  \<close>
  and the same for \<^verbatim>\<open>original_price\<close>. The \<^verbatim>\<open>except\<close> clause names two errors: any
  other one (the \<^verbatim>\<open>OverflowError\<close> of \<^verbatim>\<open>float\<close> on a huge integer) leaves the stage.
  \<^verbatim>\<open>price < 0\<close> is false of NaN.
\<close>

definition caught :: "pyerr \<Rightarrow> bool" where
  "caught err = (err = ValueError \<or> err = TypeError)"

definition clean_nonneg :: "env \<Rightarrow> string \<Rightarrow> pydict \<Rightarrow> pyerr + pydict" where
  "clean_nonneg e field item =
     (if dict_get item field \<noteq> PNone then
        (case py_float e (dict_get item field) of
           Inr price \<Rightarrow> if flt price (Fin 0) then Inr (dict_set item field (PInt 0)) else Inr item
         | Inl err \<Rightarrow> if caught err then Inr (dict_set item field PNone) else Inl err)
      else Inr item)"

text \<open>
  \<^verbatim>\<open>
  if adapter.get('rating') is not None:
      try:
          rating = float(adapter['rating'])
          if rating < 0 or rating > 5:
              adapter['rating'] = None
      except (ValueError, TypeError):
          adapter['rating'] = None
  \<close>
  Both comparisons are false of NaN.
\<close>

definition clean_rating :: "env \<Rightarrow> pydict \<Rightarrow> pyerr + pydict" where
  "clean_rating e item =
     (if dict_get item ''rating'' \<noteq> PNone then
        (case py_float e (dict_get item ''rating'') of
           Inr rating \<Rightarrow>
             if flt rating (Fin 0) \<or> flt (Fin 5) rating then Inr (dict_set item ''rating'' PNone)
             else Inr item
         | Inl err \<Rightarrow> if caught err then Inr (dict_set item ''rating'' PNone) else Inl err)
      else Inr item)"

text \<open>
  \<^verbatim>\<open>
  if adapter.get('discount_percentage') is not None:
      try:
          discount = int(adapter['discount_percentage'])
          if discount < 0 or discount > 100:
              adapter['discount_percentage'] = 0
      except (ValueError, TypeError):
          adapter['discount_percentage'] = None
  \<close>
  \<^verbatim>\<open>int\<close> of an infinite float raises \<^verbatim>\<open>OverflowError\<close>, which is not caught.
\<close>

definition clean_discount :: "env \<Rightarrow> pydict \<Rightarrow> pyerr + pydict" where
  "clean_discount e item =
     (if dict_get item ''discount_percentage'' \<noteq> PNone then
        (case py_int e (dict_get item ''discount_percentage'') of
           Inr discount \<Rightarrow>
             if discount < 0 \<or> discount > 100 then Inr (dict_set item ''discount_percentage'' (PInt 0))
             else Inr item
         | Inl err \<Rightarrow>
             if caught err then Inr (dict_set item ''discount_percentage'' PNone) else Inl err)
      else Inr item)"

definition clean_numbers :: "env \<Rightarrow> pydict \<Rightarrow> pyerr + pydict" where
  "clean_numbers e item =
     (case clean_nonneg e ''price'' item of
        Inl err \<Rightarrow> Inl err
      | Inr item1 \<Rightarrow>
         (case clean_nonneg e ''original_price'' item1 of
            Inl err \<Rightarrow> Inl err
          | Inr item2 \<Rightarrow>
             (case clean_rating e item2 of
                Inl err \<Rightarrow> Inl err
              | Inr item3 \<Rightarrow> clean_discount e item3)))"

definition cleaning_process_item :: "env \<Rightarrow> pydict \<Rightarrow> pyerr + pydict" where
  "cleaning_process_item e item =
     (case clean_image_urls (clean_attributes (clean_marketing_tags (clean_string_fields item))) of
        Inl err \<Rightarrow> Inl err
      | Inr item1 \<Rightarrow>
         (case clean_assets (clean_tags item1) of
            Inl err \<Rightarrow> Inl err
          | Inr item2 \<Rightarrow> clean_numbers e (clean_description item2)))"

subsection \<open>The three stages in the order of ITEM\_PIPELINES (settings.py)\<close>

text \<open>
  Scrapy passes an item through the pipelines by ascending priority: validation (300),
  defaults (400), cleaning (500). A stage that raises ends the run for that item.
\<close>

definition normalize :: "env \<Rightarrow> pydict \<Rightarrow> pyerr + pydict" where
  "normalize e item =
     (case validation_process_item e item of
        Inl err \<Rightarrow> Inl err
      | Inr item1 \<Rightarrow> cleaning_process_item e (defaults_process_item e item1))"

subsection \<open>The fields each stage can write\<close>

definition validation_fields :: "string list" where
  "validation_fields = [''price_data'', ''stock_data'', ''price'']"

definition defaults_fields :: "string list" where
  "defaults_fields = map fst defaults @ [''scraped_at'', ''price_data'', ''assets'', ''stock_data'']"

definition cleaning_text_fields :: "string list" where
  "cleaning_text_fields =
     string_fields @ [''marketing_tags'', ''attributes'', ''image_urls'', ''tags'', ''assets'',
       ''description'']"

definition cleaning_number_fields :: "string list" where
  "cleaning_number_fields = [''price'', ''original_price'', ''rating'', ''discount_percentage'']"

text \<open>One field of a stage's result, or the error the stage raised.\<close>

definition field_of :: "pyerr + pydict \<Rightarrow> string \<Rightarrow> pyerr + pyval" where
  "field_of r k = (case r of Inl err \<Rightarrow> Inl err | Inr out \<Rightarrow> Inr (dict_get out k))"

text \<open>A key of a nested dictionary of a stage's result.\<close>

definition nested_of :: "pyerr + pydict \<Rightarrow> string \<Rightarrow> string \<Rightarrow> pyerr + pyval" where
  "nested_of r k k2 =
     (case r of
        Inl err \<Rightarrow> Inl err
      | Inr out \<Rightarrow> (case dict_get out k of PDict d \<Rightarrow> Inr (dict_get d k2) | _ \<Rightarrow> Inr PNone))"

text \<open>The specification's reading of a numeric range: the value is a number within it.\<close>

definition in_range :: "int \<Rightarrow> int \<Rightarrow> pyval \<Rightarrow> bool" where
  "in_range lo hi v =
     (case num_of v of Some x \<Rightarrow> num_le (NInt lo) x \<and> num_le x (NInt hi) | None \<Rightarrow> False)"

section \<open>Characteristics and variants (alkoteka\_spider.py)\<close>

subsection \<open>\_extract\_characteristics\<close>

text \<open>
  \<^verbatim>\<open>
  def _extract_characteristics(self, response) -> Dict[str, str]:
      characteristics = {}
      characteristics.update(self._parse_table_characteristics(response))
      if not characteristics:
          characteristics.update(self._parse_list_characteristics(response))
      if not characteristics:
          characteristics.update(self._parse_div_characteristics(response))
      characteristics.update(self._extract_jsonld_characteristics(response))
      return characteristics
  \<close>
  The three structural parsers read the page through the selector engine, which is not
  code of the repository; their results (dictionaries) are the arguments here, with the
  result of the JSON-LD source as the fourth.
\<close>

definition extract_characteristics ::
  "('k \<times> 'v) list \<Rightarrow> ('k \<times> 'v) list \<Rightarrow> ('k \<times> 'v) list \<Rightarrow> ('k \<times> 'v) list \<Rightarrow> ('k \<times> 'v) list" where
  "extract_characteristics table lst divs jsonld =
     (let c0 = dict_update [] table;
          c1 = (if c0 = [] then dict_update c0 lst else c0);
          c2 = (if c1 = [] then dict_update c1 divs else c1)
      in dict_update c2 jsonld)"

text \<open>
  \<^verbatim>\<open>_extract_jsonld_characteristics\<close>. A script is given by what \<^verbatim>\<open>json.loads\<close> makes
  of it (\<open>None\<close>: it raises \<^verbatim>\<open>JSONDecodeError\<close>, and the script is skipped). The builtin
  \<^verbatim>\<open>str\<close> is a parameter. \<^verbatim>\<open>for prop in props\<close> runs over the elements of a list,
  the keys of a dictionary or the characters of a string; on any other value it raises
  \<^verbatim>\<open>TypeError\<close>, which only the outer handler catches: the function then returns what
  it has collected so far.
\<close>

type_synonym strdict = "(string \<times> string) list"

fun py_iter :: "pyval \<Rightarrow> pyval list option" where
  "py_iter (PList xs) = Some xs"
| "py_iter (PDict d) = Some (map (\<lambda>kv. PStr (fst kv)) d)"
| "py_iter (PStr s) = Some (map (\<lambda>c. PStr [c]) s)"
| "py_iter v = None"

definition jsonld_prop :: "(pyval \<Rightarrow> string) \<Rightarrow> pyval \<Rightarrow> strdict \<Rightarrow> strdict" where
  "jsonld_prop str_of prop chars =
     (case prop of
        PDict p \<Rightarrow>
          (let name = (case map_of p ''name'' of None \<Rightarrow> PStr [] | Some v \<Rightarrow> v);
               val = (case map_of p ''value'' of None \<Rightarrow> PStr [] | Some v \<Rightarrow> v)
           in if truthy name \<and> truthy val then dict_set chars (str_of name) (str_of val) else chars)
      | _ \<Rightarrow> chars)"

definition jsonld_skip_keys :: "string list" where
  "jsonld_skip_keys = [''@context'', ''@type'', ''url'', ''image'', ''name'', ''description'']"

definition jsonld_top :: "string \<times> pyval \<Rightarrow> strdict \<Rightarrow> strdict" where
  "jsonld_top kv chars =
     (if fst kv \<notin> set jsonld_skip_keys then
        (case snd kv of
           PStr val \<Rightarrow> if length val < 200 then dict_set chars (fst kv) val else chars
         | _ \<Rightarrow> chars)
      else chars)"

text \<open>One script: \<open>Inl\<close> when the \<^verbatim>\<open>TypeError\<close> leaves the loop over the scripts.\<close>

definition jsonld_script :: "(pyval \<Rightarrow> string) \<Rightarrow> strdict \<Rightarrow> pyval option \<Rightarrow> strdict + strdict" where
  "jsonld_script str_of chars parsed =
     (case parsed of
        None \<Rightarrow> Inr chars
      | Some (PDict data) \<Rightarrow>
          (if dict_has data ''additionalProperty'' then
             (case py_iter (dict_get data ''additionalProperty'') of
                None \<Rightarrow> Inl chars
              | Some props \<Rightarrow> Inr (fold jsonld_top data (fold (jsonld_prop str_of) props chars)))
           else Inr (fold jsonld_top data chars))
      | Some v \<Rightarrow> Inr chars)"

fun jsonld_scripts :: "(pyval \<Rightarrow> string) \<Rightarrow> strdict \<Rightarrow> pyval option list \<Rightarrow> strdict" where
  "jsonld_scripts str_of chars [] = chars"
| "jsonld_scripts str_of chars (parsed # rest) =
     (case jsonld_script str_of chars parsed of
        Inl c \<Rightarrow> c
      | Inr c \<Rightarrow> jsonld_scripts str_of c rest)"

definition extract_jsonld_characteristics :: "(pyval \<Rightarrow> string) \<Rightarrow> pyval option list \<Rightarrow> strdict" where
  "extract_jsonld_characteristics str_of scripts = jsonld_scripts str_of [] scripts"

text \<open>For concrete runs: \<^verbatim>\<open>str\<close> on a string is the string (other values are not used).\<close>

definition str_of0 :: "pyval \<Rightarrow> string" where
  "str_of0 v = (case v of PStr s \<Rightarrow> s | _ \<Rightarrow> [])"

subsection \<open>\_validate\_variant\<close>

text \<open>
  \<^verbatim>\<open>
  def _validate_variant(self, variant: str) -> bool:
      if not variant or not isinstance(variant, str):
          return False
      normalized = variant.lower().strip()
      if not normalized or len(normalized) > 100:
          return False
      invalid_keywords = [...]
      size_patterns = [r'^\s*(xs|s|m|l|xl|xxl)\s*$', r'size\s+(xs|s|m|l|xl|xxl)',
                       r'(xs|s|m|l|xl|xxl)\s*size']
      for keyword in invalid_keywords:
          if keyword in normalized:
              return False
      for pattern in size_patterns:
          if re.match(pattern, normalized):
              return False
      if normalized in ('select', ..., 'choose', ...):
          return False
      return True
  \<close>
  The keywords and placeholder labels written in Cyrillic are left out of the lists
  below: no string of the model (code points below 256) contains or equals one.
  \<^verbatim>\<open>re.match\<close> anchors a pattern at the start of the string.
\<close>

definition invalid_keywords :: "string list" where
  "invalid_keywords =
     [''size'', ''clothing'', ''shirt'', ''pants'', ''dress'', ''shoe'', ''sock'',
      ''width'', ''height'', ''material'', ''fabric'', ''large'', ''small'', ''medium'', ''extra'']"

definition size_tokens :: "string list" where
  "size_tokens = [''xs'', ''s'', ''m'', ''l'', ''xl'', ''xxl'']"

definition match_size_only :: "string \<Rightarrow> bool" where
  "match_size_only s =
     (let r = dropWhile is_space s
      in \<exists>tok \<in> set size_tokens.
           startswith r tok \<and> dropWhile is_space (drop (length tok) r) = [])"

definition match_size_prefix :: "string \<Rightarrow> bool" where
  "match_size_prefix s =
     (startswith s ''size'' \<and>
      (let r = drop 4 s; r' = dropWhile is_space r
       in r' \<noteq> r \<and> (\<exists>tok \<in> set size_tokens. startswith r' tok)))"

definition match_size_suffix :: "string \<Rightarrow> bool" where
  "match_size_suffix s =
     (\<exists>tok \<in> set size_tokens.
        startswith s tok \<and> startswith (dropWhile is_space (drop (length tok) s)) ''size'')"

definition validate_variant :: "string \<Rightarrow> bool" where
  "validate_variant variant =
     (if variant = [] then False
      else (let normalized = py_strip (py_lower variant)
            in if normalized = [] \<or> length normalized > 100 then False
               else if \<exists>keyword \<in> set invalid_keywords. contains normalized keyword then False
               else if match_size_only normalized \<or> match_size_prefix normalized
                       \<or> match_size_suffix normalized then False
               else if normalized \<in> set [''select'', ''choose''] then False
               else True))"

subsection \<open>\_detect\_variants\<close>

text \<open>
  What the selector queries of the variant detection return on a page: the texts of the
  CSS queries and the two places where a JSON list of variants can stand. \<^verbatim>\<open>json.loads\<close>
  is a parameter (\<open>None\<close>: it raises).
\<close>

record page =
  url :: string
  volume_selector_options :: "string list"
  select_name_volume_options :: "string list"
  select_class_volume_options :: "string list"
  volume_btn_texts :: "string list"
  volume_class_btn_texts :: "string list"
  size_button_texts :: "string list"
  color_selector_options :: "string list"
  select_name_color_options :: "string list"
  select_class_color_options :: "string list"
  color_btn_texts :: "string list"
  color_class_btn_texts :: "string list"
  data_color_texts :: "string list"
  data_available_colors :: "string option"
  data_variants :: "string option"
  script_variants :: "string option"

text \<open>\<^verbatim>\<open>a = q1; if not a: a = q2; if not a: a = q3\<close>\<close>

definition first_nonempty :: "'a list \<Rightarrow> 'a list \<Rightarrow> 'a list \<Rightarrow> 'a list" where
  "first_nonempty q1 q2 q3 = (if q1 \<noteq> [] then q1 else if q2 \<noteq> [] then q2 else q3)"

fun dedup_variants :: "string list \<Rightarrow> string list \<Rightarrow> string list" where
  "dedup_variants seen [] = []"
| "dedup_variants seen (variant # variants) =
     (let normalized = py_strip (py_lower variant)
      in if normalized \<in> set seen then dedup_variants seen variants
         else variant # dedup_variants (normalized # seen) variants)"

definition deduplicate_variants :: "string list \<Rightarrow> string list" where
  "deduplicate_variants variants = dedup_variants [] variants"

text \<open>
  \<^verbatim>\<open>
  for opt in option_variants:
      if opt and opt.strip():
          cleaned = opt.strip()
          if self._validate_variant(cleaned):
              variants.append(cleaned)
  \<close>
\<close>

definition cleaned_valid :: "string list \<Rightarrow> string list" where
  "cleaned_valid texts =
     map py_strip (filter (\<lambda>opt. opt \<noteq> [] \<and> py_strip opt \<noteq> [] \<and> validate_variant (py_strip opt)) texts)"

definition extract_volume_variants :: "page \<Rightarrow> string list" where
  "extract_volume_variants p =
     (let option_variants = first_nonempty (volume_selector_options p)
            (select_name_volume_options p) (select_class_volume_options p);
          button_variants = first_nonempty (volume_btn_texts p)
            (volume_class_btn_texts p) (size_button_texts p)
      in deduplicate_variants (cleaned_valid option_variants @ cleaned_valid button_variants))"

text \<open>
  A colour option counts only when \<^verbatim>\<open>'color' in response.url.lower()\<close> (the other
  disjunct asks for a Cyrillic word in the label). The colours of the
  \<^verbatim>\<open>data-available-colors\<close> attribute are taken as they are when the attribute parses
  to a list.
\<close>

fun color_strings :: "pyval list \<Rightarrow> string list" where
  "color_strings [] = []"
| "color_strings (PStr color # colors) =
     (if validate_variant color then color # color_strings colors else color_strings colors)"
| "color_strings (v # colors) = color_strings colors"

definition extract_color_variants :: "(string \<Rightarrow> pyval option) \<Rightarrow> page \<Rightarrow> string list" where
  "extract_color_variants loads p =
     (let color_options = first_nonempty (color_selector_options p)
            (select_name_color_options p) (select_class_color_options p);
          from_options = (if contains (py_lower (url p)) ''color'' then cleaned_valid color_options
                          else []);
          color_buttons = first_nonempty (color_btn_texts p)
            (color_class_btn_texts p) (data_color_texts p);
          from_attrs =
            (case data_available_colors p of
               None \<Rightarrow> []
             | Some color_from_attrs \<Rightarrow>
                 if color_from_attrs = [] then []
                 else (case loads color_from_attrs of
                         Some (PList colors) \<Rightarrow> color_strings colors
                       | _ \<Rightarrow> []))
      in deduplicate_variants (from_options @ cleaned_valid color_buttons @ from_attrs))"

text \<open>
  \<^verbatim>\<open>
  def _extract_variants_from_json(self, response) -> int:
      try:
          variants_json = response.css('[data-variants]::attr(data-variants)').get()
          if not variants_json:
              variants_json = response.xpath('//script[...]/text()').get()
          if variants_json:
              data = json.loads(variants_json)
              if isinstance(data, dict):
                  if 'variants' in data and isinstance(data['variants'], list):
                      return len([v for v in data['variants'] if self._validate_variant(str(v))])
                  if 'options' in data and isinstance(data['options'], list):
                      return len([o for o in data['options'] if self._validate_variant(str(o))])
              elif isinstance(data, list):
                  return len([v for v in data if self._validate_variant(str(v))])
      except (json.JSONDecodeError, ValueError, TypeError):
          pass
      return 0
  \<close>
\<close>

definition count_valid :: "(pyval \<Rightarrow> string) \<Rightarrow> pyval list \<Rightarrow> nat" where
  "count_valid str_of vs = length (filter (\<lambda>v. validate_variant (str_of v)) vs)"

definition variants_json_of :: "page \<Rightarrow> string option" where
  "variants_json_of p =
     (case data_variants p of
        None \<Rightarrow> script_variants p
      | Some s \<Rightarrow> if s = [] then script_variants p else Some s)"

definition extract_variants_from_json ::
  "(string \<Rightarrow> pyval option) \<Rightarrow> (pyval \<Rightarrow> string) \<Rightarrow> page \<Rightarrow> nat" where
  "extract_variants_from_json loads str_of p =
     (case variants_json_of p of
        None \<Rightarrow> 0
      | Some variants_json \<Rightarrow>
          if variants_json = [] then 0
          else (case loads variants_json of
                  None \<Rightarrow> 0
                | Some (PDict data) \<Rightarrow>
                    (case map_of data ''variants'' of
                       Some (PList vs) \<Rightarrow> count_valid str_of vs
                     | _ \<Rightarrow>
                        (case map_of data ''options'' of
                           Some (PList os) \<Rightarrow> count_valid str_of os
                         | _ \<Rightarrow> 0))
                | Some (PList vs) \<Rightarrow> count_valid str_of vs
                | Some v \<Rightarrow> 0))"

text \<open>
  \<^verbatim>\<open>
  def _detect_variants(self, response) -> int:
      variants = set()
      variants.update(self._extract_volume_variants(response))
      variants.update(self._extract_color_variants(response))
      json_variants_count = self._extract_variants_from_json(response)
      if json_variants_count > 0:
          return json_variants_count
      valid_variants = [v for v in variants if self._validate_variant(v)]
      return len(valid_variants)
  \<close>
\<close>

definition markup_variants :: "(string \<Rightarrow> pyval option) \<Rightarrow> page \<Rightarrow> string list" where
  "markup_variants loads p = remdups (extract_volume_variants p @ extract_color_variants loads p)"

definition detect_variants :: "(string \<Rightarrow> pyval option) \<Rightarrow> (pyval \<Rightarrow> string) \<Rightarrow> page \<Rightarrow> nat" where
  "detect_variants loads str_of p =
     (let variants = markup_variants loads p;
          json_variants_count = extract_variants_from_json loads str_of p
      in if json_variants_count > 0 then json_variants_count
         else length (filter validate_variant variants))"

text \<open>For concrete runs: a \<^verbatim>\<open>json.loads\<close> that knows two texts.\<close>

definition loads0 :: "string \<Rightarrow> pyval option" where
  "loads0 s =
     (if s = ''[]'' then Some (PList [])
      else if s = ''[\"500ml\", \"XL\"]'' then Some (PList [PStr ''500ml'', PStr ''XL''])
      else None)"

definition page0 :: page where
  "page0 = \<lparr>url = ''https://alkoteka.com/product/1'',
     volume_selector_options = [], select_name_volume_options = [], select_class_volume_options = [],
     volume_btn_texts = [], volume_class_btn_texts = [], size_button_texts = [],
     color_selector_options = [], select_name_color_options = [], select_class_color_options = [],
     color_btn_texts = [], color_class_btn_texts = [], data_color_texts = [],
     data_available_colors = None, data_variants = None, script_variants = None\<rparr>"

text \<open>
  The list of entries the specification speaks of: the \<^verbatim>\<open>variants\<close> list of a parsed
  dictionary, else its \<^verbatim>\<open>options\<close> list, or the parsed list itself.
\<close>

definition variant_list_of :: "pyval \<Rightarrow> pyval list option" where
  "variant_list_of data =
     (case data of
        PList vs \<Rightarrow> Some vs
      | PDict d \<Rightarrow>
          (case map_of d ''variants'' of
             Some (PList vs) \<Rightarrow> Some vs
           | _ \<Rightarrow> (case map_of d ''options'' of Some (PList os) \<Rightarrow> Some os | _ \<Rightarrow> None))
      | _ \<Rightarrow> None)"

section \<open>Properties of the float model\<close>

lemma bitlen_bound: "n < 2 ^ m \<Longrightarrow> bitlen n \<le> int m"
proof (induction m arbitrary: n)
  case 0
  then have "n \<le> 0" by simp
  then show ?case by (simp add: bitlen.simps)
next
  case (Suc m)
  show ?case
  proof (cases "n \<le> 0")
    case True
    then show ?thesis by (simp add: bitlen.simps)
  next
    case False
    from Suc.prems have "n div 2 < 2 ^ m" by simp
    then have "bitlen (n div 2) \<le> int m" by (rule Suc.IH)
    with False show ?thesis by (simp add: bitlen.simps [of n])
  qed
qed

lemma bitlen_one: "bitlen 1 = 1"
  by (simp add: bitlen.simps)

lemma pow2_nonpos: "q \<le> 0 \<Longrightarrow> pow2 q = 1 / 2 ^ nat (- q)"
  by (cases "q = 0") (simp_all add: pow2_def)

lemma pow2_pos: "0 < pow2 k"
  by (simp add: pow2_def)

lemma round_half_even_int: "round_half_even (of_int z) = z"
  by (simp add: round_half_even_def Let_def)

lemma ilog2_int_le:
  assumes "0 < n"
  shows "ilog2 (of_int n) \<le> bitlen n - 1"
  using assms by (simp add: ilog2_def Let_def bitlen_one)

text \<open>An integer of magnitude below \<open>2^53\<close> is a double: rounding keeps it.\<close>

lemma round_double_int:
  assumes "\<bar>i\<bar> < 2 ^ 53"
  shows "round_double (of_int i) = Fin (of_int i)"
proof (cases "i = 0")
  case True
  then show ?thesis by (simp add: round_double_def)
next
  case False
  define n where "n = \<bar>i\<bar>"
  have n: "0 < n" "n < 2 ^ 53" using False assms by (simp_all add: n_def)
  define q where "q = max (ilog2 (of_int n) - 52) (- 1074)"
  have "bitlen n \<le> 53" using bitlen_bound [of n 53] n by simp
  with ilog2_int_le [OF n(1)] have "ilog2 (of_int n) \<le> 52" by simp
  then have q: "q \<le> 0" by (simp add: q_def)
  have "(of_int n :: rat) / pow2 q = of_int (n * 2 ^ nat (- q))"
    by (simp add: pow2_nonpos [OF q])
  then have r: "round_half_even (of_int n / pow2 q) = n * 2 ^ nat (- q)"
    by (simp only: round_half_even_int)
  have v: "of_int (round_half_even (of_int n / pow2 q)) * pow2 q = (of_int n :: rat)"
    by (simp only: r) (simp add: pow2_nonpos [OF q])
  have "(of_int n :: rat) < 2 ^ 53" using n(2) by (metis of_int_less_numeral_power_cancel_iff)
  also have "\<dots> < 2 ^ 1024" by simp
  finally have small: "\<not> pow2 1024 \<le> (of_int n :: rat)" by (simp add: pow2_def)
  have a: "\<bar>of_int i :: rat\<bar> = of_int n" by (simp add: n_def)
  have "round_double (of_int i) = Fin (if 0 < (of_int i :: rat) then of_int n else - of_int n)"
    using False small by (simp add: round_double_def Let_def a q_def [symmetric] v)
  also have "(if 0 < (of_int i :: rat) then of_int n else - of_int n) = (of_int i :: rat)"
    by (simp add: n_def)
  finally show ?thesis .
qed

lemma float_of_int_small: "\<bar>i\<bar> < 2 ^ 53 \<Longrightarrow> float_of_int i = Inr (Fin (of_int i))"
  by (simp add: float_of_int_def round_double_int)

lemma float_of_int_0: "float_of_int 0 = Inr (Fin 0)"
  using float_of_int_small [of 0] by simp

lemma float_of_int_100: "float_of_int 100 = Inr (Fin 100)"
  using float_of_int_small [of 100] by simp

text \<open>\<open>ilog2\<close> is the integer part of the binary logarithm.\<close>

lemma pow2_power_int: "pow2 k = power_int 2 k"
  by (simp add: pow2_def power_int_def power_inverse [symmetric] inverse_eq_divide power_one_over)

lemma pow2_add: "pow2 (x + y) = pow2 x * pow2 y"
  by (simp add: pow2_power_int power_int_add)

lemma pow2_diff: "pow2 (x - y) = pow2 x / pow2 y"
  by (simp add: pow2_power_int power_int_diff)

lemma pow2_mono: "x \<le> y \<Longrightarrow> pow2 x \<le> pow2 y"
  by (simp add: pow2_power_int power_int_increasing)

lemma pow2_less_cancel: "pow2 x < pow2 y \<Longrightarrow> x < y"
  using pow2_mono [of y x] by (cases "x < y") simp_all

lemma pow2_nat: "pow2 (int n) = 2 ^ n"
  by (simp add: pow2_def)

lemma bitlen_bounds:
  "0 < n \<Longrightarrow> 0 < bitlen n \<and> 2 ^ nat (bitlen n - 1) \<le> n \<and> n < 2 ^ nat (bitlen n)"
proof (induction n rule: bitlen.induct)
  case (1 n)
  show ?case
  proof (cases "n div 2 = 0")
    case True
    with \<open>0 < n\<close> have n1: "n = 1" by presburger
    show ?thesis by (simp add: n1 bitlen_one)
  next
    case False
    with \<open>0 < n\<close> have pos: "0 < n div 2" by presburger
    have "\<not> n \<le> 0" using \<open>0 < n\<close> by simp
    from "1.IH" [OF this pos]
    have ih: "0 < bitlen (n div 2)" "2 ^ nat (bitlen (n div 2) - 1) \<le> n div 2"
      "n div 2 < 2 ^ nat (bitlen (n div 2))" by simp_all
    have b: "bitlen n = 1 + bitlen (n div 2)" using \<open>0 < n\<close> by (simp add: bitlen.simps [of n])
    have e1: "nat (bitlen n - 1) = Suc (nat (bitlen (n div 2) - 1))" using ih(1) b by simp
    have e2: "nat (bitlen n) = Suc (nat (bitlen (n div 2)))" using ih(1) b by simp
    have "2 * 2 ^ nat (bitlen (n div 2) - 1) \<le> 2 * (n div 2)" using ih(2) by simp
    also have "\<dots> \<le> n" by presburger
    finally have lo: "2 ^ nat (bitlen n - 1) \<le> n" by (simp add: e1)
    have "n div 2 + 1 \<le> 2 ^ nat (bitlen (n div 2))" using ih(3) by simp
    then have "2 * (n div 2) + 2 \<le> 2 * 2 ^ nat (bitlen (n div 2))" by simp
    moreover have "n < 2 * (n div 2) + 2" by presburger
    ultimately have hi: "n < 2 ^ nat (bitlen n)" by (simp add: e2)
    from lo hi ih(1) b show ?thesis by simp
  qed
qed

lemma ilog2_bounds:
  assumes "0 < a"
  shows "pow2 (ilog2 a) \<le> a \<and> a < pow2 (ilog2 a + 1)"
proof -
  obtain n d where nd: "quotient_of a = (n, d)" by (cases "quotient_of a")
  have d: "0 < d" using nd by (rule quotient_of_denom_pos)
  have a: "a = of_int n / of_int d" using nd by (rule quotient_of_div)
  have n: "0 < n" using assms d a by (simp add: zero_less_divide_iff)
  note bn = bitlen_bounds [OF n] and bd = bitlen_bounds [OF d]
  define k where "k = bitlen n - bitlen d"
  have dr: "(0::rat) < of_int d" using d by simp
  have n_lo: "pow2 (bitlen n - 1) \<le> of_int n"
  proof -
    have "(of_int (2 ^ nat (bitlen n - 1)) :: rat) \<le> of_int n" using bn by (simp only: of_int_le_iff)
    moreover have "pow2 (bitlen n - 1) = 2 ^ nat (bitlen n - 1)" using bn by (simp add: pow2_def)
    ultimately show ?thesis by simp
  qed
  have n_hi: "of_int n < pow2 (bitlen n)"
  proof -
    have "(of_int n :: rat) < of_int (2 ^ nat (bitlen n))" using bn by (simp only: of_int_less_iff)
    moreover have "pow2 (bitlen n) = 2 ^ nat (bitlen n)" using bn by (simp add: pow2_def)
    ultimately show ?thesis by simp
  qed
  have d_lo: "pow2 (bitlen d - 1) \<le> of_int d"
  proof -
    have "(of_int (2 ^ nat (bitlen d - 1)) :: rat) \<le> of_int d" using bd by (simp only: of_int_le_iff)
    moreover have "pow2 (bitlen d - 1) = 2 ^ nat (bitlen d - 1)" using bd by (simp add: pow2_def)
    ultimately show ?thesis by simp
  qed
  have d_hi: "of_int d < pow2 (bitlen d)"
  proof -
    have "(of_int d :: rat) < of_int (2 ^ nat (bitlen d))" using bd by (simp only: of_int_less_iff)
    moreover have "pow2 (bitlen d) = 2 ^ nat (bitlen d)" using bd by (simp add: pow2_def)
    ultimately show ?thesis by simp
  qed
  have lo: "pow2 (k - 1) \<le> a"
  proof -
    have "pow2 (k - 1) = pow2 (bitlen n - 1) / pow2 (bitlen d)"
      by (simp add: k_def pow2_diff [symmetric] algebra_simps)
    also have "\<dots> \<le> of_int n / pow2 (bitlen d)"
      using n_lo pow2_pos [of "bitlen d"] by (simp add: divide_right_mono)
    also have "\<dots> \<le> of_int n / of_int d"
      using d_hi dr n by (simp add: frac_le)
    finally show ?thesis by (simp add: a)
  qed
  have hi: "a < pow2 (k + 1)"
  proof -
    have "a = of_int n / of_int d" by (rule a)
    also have "\<dots> < pow2 (bitlen n) / of_int d"
      using n_hi dr by (simp add: divide_strict_right_mono)
    also have "\<dots> \<le> pow2 (bitlen n) / pow2 (bitlen d - 1)"
      using d_lo pow2_pos [of "bitlen d - 1"] pow2_pos [of "bitlen n"] by (simp add: frac_le)
    also have "\<dots> = pow2 (k + 1)"
      by (simp add: k_def pow2_diff [symmetric] algebra_simps)
    finally show ?thesis .
  qed
  have il: "ilog2 a = (if pow2 k \<le> a then k else k - 1)"
    by (simp add: ilog2_def Let_def nd k_def)
  show ?thesis
  proof (cases "pow2 k \<le> a")
    case True
    with hi il show ?thesis by simp
  next
    case False
    with lo il show ?thesis by simp
  qed
qed

lemma ilog2_eqI:
  assumes "pow2 e \<le> a" "a < pow2 (e + 1)"
  shows "ilog2 a = e"
proof -
  have "0 < a" using pow2_pos [of e] assms(1) by simp
  note b = ilog2_bounds [OF this]
  have "pow2 e < pow2 (ilog2 a + 1)" using assms(1) b by simp
  then have "e < ilog2 a + 1" by (rule pow2_less_cancel)
  moreover have "pow2 (ilog2 a) < pow2 (e + 1)" using assms(2) b by simp
  then have "ilog2 a < e + 1" by (rule pow2_less_cancel)
  ultimately show ?thesis by simp
qed

text \<open>Evaluating a rounding: the nearest integer, then the double.\<close>

lemma round_half_even_down:
  assumes "of_int f \<le> y" "y - of_int f < 1 / 2"
  shows "round_half_even y = f"
proof -
  have "\<lfloor>y\<rfloor> = f" using assms by linarith
  then show ?thesis using assms(2) by (simp add: round_half_even_def Let_def)
qed

lemma round_half_even_up:
  assumes "y < of_int f" "of_int f - y < 1 / 2"
  shows "round_half_even y = f"
proof -
  have "\<lfloor>y\<rfloor> = f - 1" using assms by linarith
  then show ?thesis using assms by (simp add: round_half_even_def Let_def)
qed

lemma round_double_pos:
  assumes "pow2 e \<le> x" "x < pow2 (e + 1)" "max (e - 52) (- 1074) = q"
    and "round_half_even (x / pow2 q) = m" "of_int m * pow2 q < pow2 1024"
  shows "round_double x = Fin (of_int m * pow2 q)"
proof -
  have pos: "0 < x" using pow2_pos [of e] assms(1) by simp
  then have a: "\<bar>x\<bar> = x" by simp
  have e: "ilog2 x = e" using assms(1,2) by (rule ilog2_eqI)
  show ?thesis
    using pos e assms(3-5) by (simp add: round_double_def Let_def a)
qed

section \<open>Properties of the scalar normalizers\<close>

lemma spider_calculate_discount_same:
  "spider_calculate_discount original current = calculate_discount original current"
  by (simp add: spider_calculate_discount_def calculate_discount_def)

lemma num_truthy_exact: "num_truthy n = (exact n \<noteq> Fin 0)"
  by (cases n) simp_all

text \<open>The last step never raises: it is the clamp, rounded down, unless the number is NaN.\<close>

lemma int_max_min:
  assumes "clamp 0 100 (exact d) = Some y"
  shows "int_of_num (py_max (NInt 0) (py_min (NInt 100) d)) = Inr (round_down y)"
proof (cases d)
  case (NInt i)
  with assms have "y = max 0 (min 100 (of_int i))" by (simp add: clamp_def)
  then have "round_down y = max 0 (min 100 i)"
    by (simp add: round_down_def max_def min_def)
  then show ?thesis using NInt
    by (simp add: py_max_def py_min_def num_lt_def max_def min_def)
next
  case (NFloat f)
  show ?thesis
  proof (cases f)
    case (Fin v)
    with assms NFloat have y: "y = max 0 (min 100 v)" by (simp add: clamp_def)
    show ?thesis
    proof (cases "v < 100")
      case True
      show ?thesis
      proof (cases "0 < v")
        case pos: True
        with True y have "y = v" by simp
        with pos True NFloat Fin show ?thesis
          by (simp add: py_max_def py_min_def num_lt_def trunc_def round_down_def)
      next
        case False
        with True y have "y = 0" by simp
        with False True NFloat Fin show ?thesis
          by (simp add: py_max_def py_min_def num_lt_def round_down_def)
      qed
    next
      case False
      with y have "y = 100" by simp
      with False NFloat Fin show ?thesis
        by (simp add: py_max_def py_min_def num_lt_def round_down_def)
    qed
  next
    case PosInf
    with assms NFloat show ?thesis
      by (simp add: clamp_def py_max_def py_min_def num_lt_def round_down_def)
  next
    case NegInf
    with assms NFloat show ?thesis
      by (simp add: clamp_def py_max_def py_min_def num_lt_def round_down_def)
  next
    case NaN
    with assms NFloat show ?thesis by (simp add: clamp_def)
  qed
qed

lemma calculate_discount_absent_iff:
  "(calculate_discount original current = Inr None) =
     (absent_or_zero original \<or> absent_or_zero current
      \<or> (\<exists>x. original = Some x \<and> num_le x (NInt 0)))"
  by (auto simp: calculate_discount_def absent_or_zero_def num_truthy_exact
           split: option.splits sum.splits)

lemma calculate_discount_value:
  assumes "\<not> absent_or_zero (Some orig)" "\<not> absent_or_zero (Some cur)" "\<not> num_le orig (NInt 0)"
    and "py_sub orig cur = Inr s" "py_truediv s orig = Inr q" "py_mul q (NInt 100) = Inr d"
    and "clamp 0 100 (exact d) = Some y"
  shows "calculate_discount (Some orig) (Some cur) = Inr (Some (round_down y))"
  using assms(1-6) int_max_min [OF assms(7)]
  by (simp add: calculate_discount_def absent_or_zero_def num_truthy_exact)

text \<open>On float operands no step raises: the percentage is one float expression.\<close>

lemma float_steps:
  assumes "a \<noteq> Fin 0"
  shows "py_sub (NFloat a) (NFloat b) = Inr (NFloat (fsub a b))"
    and "py_truediv (NFloat (fsub a b)) (NFloat a) = Inr (NFloat (fdiv (fsub a b) a))"
    and "py_mul (NFloat (fdiv (fsub a b) a)) (NInt 100)
           = Inr (NFloat (fmul (fdiv (fsub a b) a) (Fin 100)))"
  using assms by (simp_all add: float_op_def float_of_int_100)

lemma calculate_discount_float:
  assumes "a \<noteq> Fin 0" "b \<noteq> Fin 0" "\<not> fle a (Fin 0)"
    and "clamp 0 100 (fmul (fdiv (fsub a b) a) (Fin 100)) = Some y"
  shows "calculate_discount (Some (NFloat a)) (Some (NFloat b)) = Inr (Some (round_down y))"
proof (rule calculate_discount_value)
  show "\<not> absent_or_zero (Some (NFloat a))" using assms(1) by (simp add: absent_or_zero_def)
  show "\<not> absent_or_zero (Some (NFloat b))" using assms(2) by (simp add: absent_or_zero_def)
  show "\<not> num_le (NFloat a) (NInt 0)" using assms(3) by (simp add: num_le_def)
  show "py_sub (NFloat a) (NFloat b) = Inr (NFloat (fsub a b))"
    by (rule float_steps(1) [OF assms(1)])
  show "py_truediv (NFloat (fsub a b)) (NFloat a) = Inr (NFloat (fdiv (fsub a b) a))"
    by (rule float_steps(2) [OF assms(1)])
  show "py_mul (NFloat (fdiv (fsub a b) a)) (NInt 100)
           = Inr (NFloat (fmul (fdiv (fsub a b) a) (Fin 100)))"
    by (rule float_steps(3) [OF assms(1)])
  show "clamp 0 100 (exact (NFloat (fmul (fdiv (fsub a b) a) (Fin 100)))) = Some y"
    using assms(4) by simp
qed

text \<open>The roundings that the examples need.\<close>

lemma round_double_0: "round_double 0 = Fin 0"
  by (simp add: round_double_def)

lemma round_double_25: "round_double 25 = Fin 25"
  using round_double_int [of 25] by simp

lemma round_double_250: "round_double 250 = Fin 250"
  using round_double_int [of 250] by simp

lemma round_double_29: "round_double 29 = Fin 29"
  using round_double_int [of 29] by simp

lemma round_double_quarter: "round_double (1 / 4) = Fin (1 / 4)"
proof -
  have m: "round_half_even ((1 / 4) / pow2 (- 54)) = 4503599627370496"
    by (rule round_half_even_down) (simp_all add: pow2_def)
  have "round_double (1 / 4) = Fin (of_int 4503599627370496 * pow2 (- 54))"
    by (rule round_double_pos [where e = "- 2", OF _ _ _ m]) (simp_all add: pow2_def)
  then show ?thesis by (simp add: pow2_def)
qed

lemma round_double_29_100:
  "round_double (29 / 100) = Fin (5224175567749775 / 18014398509481984)"
proof -
  have m: "round_half_even ((29 / 100) / pow2 (- 54)) = 5224175567749775"
    by (rule round_half_even_down) (simp_all add: pow2_def)
  have "round_double (29 / 100) = Fin (of_int 5224175567749775 * pow2 (- 54))"
    by (rule round_double_pos [where e = "- 2", OF _ _ _ m]) (simp_all add: pow2_def)
  then show ?thesis by (simp add: pow2_def)
qed

lemma round_double_29_low:
  "round_double (130604389193744375 / 4503599627370496)
     = Fin (8162774324609023 / 281474976710656)"
proof -
  have m: "round_half_even ((130604389193744375 / 4503599627370496) / pow2 (- 48))
             = 8162774324609023"
    by (rule round_half_even_down) (simp_all add: pow2_def)
  have "round_double (130604389193744375 / 4503599627370496)
          = Fin (of_int 8162774324609023 * pow2 (- 48))"
    by (rule round_double_pos [where e = 4, OF _ _ _ m]) (simp_all add: pow2_def)
  then show ?thesis by (simp add: pow2_def)
qed

lemma percentage_1000_750: "fmul (fdiv (fsub (Fin 1000) (Fin 750)) (Fin 1000)) (Fin 100) = Fin 25"
  by (simp add: round_double_250 round_double_quarter round_double_25)

lemma percentage_1000_1000: "fmul (fdiv (fsub (Fin 1000) (Fin 1000)) (Fin 1000)) (Fin 100) = Fin 0"
  by (simp add: round_double_0)

lemma percentage_100_71:
  "fmul (fdiv (fsub (Fin 100) (Fin 71)) (Fin 100)) (Fin 100)
     = Fin (8162774324609023 / 281474976710656)"
  by (simp add: round_double_29 round_double_29_100 round_double_29_low)

lemma calculate_discount_float_examples:
  "calculate_discount (Some (NFloat (Fin 1000))) (Some (NFloat (Fin 750))) = Inr (Some 25)"
  "calculate_discount (Some (NFloat (Fin 0))) (Some (NFloat (Fin 750))) = Inr None"
  "calculate_discount (Some (NFloat (Fin 1000))) (Some (NFloat (Fin 1000))) = Inr (Some 0)"
proof -
  have "clamp 0 100 (fmul (fdiv (fsub (Fin 1000) (Fin 750)) (Fin 1000)) (Fin 100)) = Some 25"
    by (simp only: percentage_1000_750) (simp add: clamp_def)
  from calculate_discount_float [OF _ _ _ this]
  show "calculate_discount (Some (NFloat (Fin 1000))) (Some (NFloat (Fin 750))) = Inr (Some 25)"
    by (simp add: round_down_def)
  show "calculate_discount (Some (NFloat (Fin 0))) (Some (NFloat (Fin 750))) = Inr None"
    by (simp add: calculate_discount_def)
  have "clamp 0 100 (fmul (fdiv (fsub (Fin 1000) (Fin 1000)) (Fin 1000)) (Fin 100)) = Some 0"
    by (simp only: percentage_1000_1000) (simp add: clamp_def)
  from calculate_discount_float [OF _ _ _ this]
  show "calculate_discount (Some (NFloat (Fin 1000))) (Some (NFloat (Fin 1000))) = Inr (Some 0)"
    by (simp add: round_down_def)
qed

text \<open>
  On integer operands the difference is exact and the quotient is rounded once; the
  three examples of the specification come out the same.
\<close>

lemma int_steps_1000_750:
  "py_sub (NInt 1000) (NInt 750) = Inr (NInt 250)"
  "py_truediv (NInt 250) (NInt 1000) = Inr (NFloat (Fin (1 / 4)))"
  "py_mul (NFloat (Fin (1 / 4))) (NInt 100) = Inr (NFloat (Fin 25))"
  by (simp_all add: round_double_quarter float_op_def float_of_int_100 round_double_25)

lemma int_steps_1000_1000:
  "py_sub (NInt 1000) (NInt 1000) = Inr (NInt 0)"
  "py_truediv (NInt 0) (NInt 1000) = Inr (NFloat (Fin 0))"
  "py_mul (NFloat (Fin 0)) (NInt 100) = Inr (NFloat (Fin 0))"
  by (simp_all add: round_double_0 float_op_def float_of_int_100)

lemma int_steps_100_71:
  "py_sub (NInt 100) (NInt 71) = Inr (NInt 29)"
  "py_truediv (NInt 29) (NInt 100) = Inr (NFloat (Fin (5224175567749775 / 18014398509481984)))"
  "py_mul (NFloat (Fin (5224175567749775 / 18014398509481984))) (NInt 100)
     = Inr (NFloat (Fin (8162774324609023 / 281474976710656)))"
  by (simp_all add: round_double_29_100 float_op_def float_of_int_100 round_double_29_low)

lemma calculate_discount_int_examples:
  "calculate_discount (Some (NInt 1000)) (Some (NInt 750)) = Inr (Some 25)"
  "calculate_discount (Some (NInt 0)) (Some (NInt 750)) = Inr None"
  "calculate_discount (Some (NInt 1000)) (Some (NInt 1000)) = Inr (Some 0)"
proof -
  have "clamp 0 100 (exact (NFloat (Fin 25))) = Some 25" by (simp add: clamp_def)
  from calculate_discount_value [OF _ _ _ int_steps_1000_750 this]
  show "calculate_discount (Some (NInt 1000)) (Some (NInt 750)) = Inr (Some 25)"
    by (simp add: round_down_def absent_or_zero_def num_le_def)
  show "calculate_discount (Some (NInt 0)) (Some (NInt 750)) = Inr None"
    by (simp add: calculate_discount_def)
  have "clamp 0 100 (exact (NFloat (Fin 0))) = Some 0" by (simp add: clamp_def)
  from calculate_discount_value [OF _ _ _ int_steps_1000_1000 this]
  show "calculate_discount (Some (NInt 1000)) (Some (NInt 1000)) = Inr (Some 0)"
    by (simp add: round_down_def absent_or_zero_def num_le_def)
qed

text \<open>
  A percentage that is a whole number in exact arithmetic can fall just below it in
  double arithmetic: 29/100 rounds to a double whose product with 100 rounds to
  28.999999999999996, so (100, 71) gives 28.
\<close>

lemma clamp_100_71:
  "clamp 0 100 (Fin (8162774324609023 / 281474976710656)) = Some (8162774324609023 / 281474976710656)"
  by (simp add: clamp_def)

lemma round_down_100_71: "round_down (8162774324609023 / 281474976710656) = 28"
  unfolding round_down_def by linarith

lemma calculate_discount_100_71:
  "calculate_discount (Some (NFloat (Fin 100))) (Some (NFloat (Fin 71))) = Inr (Some 28)"
  "calculate_discount (Some (NInt 100)) (Some (NInt 71)) = Inr (Some 28)"
proof -
  have "clamp 0 100 (fmul (fdiv (fsub (Fin 100) (Fin 71)) (Fin 100)) (Fin 100))
          = Some (8162774324609023 / 281474976710656)"
    by (simp only: percentage_100_71 clamp_100_71)
  from calculate_discount_float [OF _ _ _ this]
  show "calculate_discount (Some (NFloat (Fin 100))) (Some (NFloat (Fin 71))) = Inr (Some 28)"
    by (simp add: round_down_100_71)
  have "clamp 0 100 (exact (NFloat (Fin (8162774324609023 / 281474976710656))))
          = Some (8162774324609023 / 281474976710656)"
    by (simp add: clamp_100_71)
  from calculate_discount_value [OF _ _ _ int_steps_100_71 this]
  show "calculate_discount (Some (NInt 100)) (Some (NInt 71)) = Inr (Some 28)"
    by (simp add: round_down_100_71 absent_or_zero_def num_le_def)
qed

lemma round_double_50: "round_double 50 = Fin 50"
  using round_double_int [of 50] by simp

lemma percentage_200_150: "fmul (fdiv (fsub (Fin 200) (Fin 150)) (Fin 200)) (Fin 100) = Fin 25"
  by (simp add: round_double_50 round_double_quarter round_double_25)

lemma int_steps_8_6:
  "py_sub (NInt 8) (NInt 6) = Inr (NInt 2)"
  "py_truediv (NInt 2) (NInt 8) = Inr (NFloat (Fin (1 / 4)))"
  by (simp_all add: round_double_quarter)

text \<open>
  C10. \<^verbatim>\<open>calculate_discount(original, current)\<close>, in items.py and in the spider, is
  absent exactly when an operand is absent or zero or the original is not positive.
  Otherwise the percentage is computed in Python's arithmetic, each float operation
  rounded to a double: when no step raises and the percentage \<open>d\<close> is not NaN, the result
  is the clamp of \<open>d\<close> to 0..100, rounded down. On float operands no step raises and
  \<open>d\<close> is the float expression \<^verbatim>\<open>(a - b) / a * 100\<close>. In particular (1000, 750) gives 25,
  (0, 750) is absent and (1000, 1000) gives 0, for integers and for floats.
\<close>

theorem C10_calculate_discount:
  "(calculate_discount original current = Inr None) =
      (absent_or_zero original \<or> absent_or_zero current
       \<or> (\<exists>x. original = Some x \<and> num_le x (NInt 0)))
   \<and> (\<not> absent_or_zero (Some orig) \<and> \<not> absent_or_zero (Some cur) \<and> \<not> num_le orig (NInt 0)
        \<and> py_sub orig cur = Inr s \<and> py_truediv s orig = Inr q \<and> py_mul q (NInt 100) = Inr d
        \<and> clamp 0 100 (exact d) = Some y
        \<longrightarrow> calculate_discount (Some orig) (Some cur) = Inr (Some (round_down y)))
   \<and> (a \<noteq> Fin 0 \<and> b \<noteq> Fin 0 \<and> \<not> fle a (Fin 0)
        \<and> clamp 0 100 (fmul (fdiv (fsub a b) a) (Fin 100)) = Some z
        \<longrightarrow> calculate_discount (Some (NFloat a)) (Some (NFloat b)) = Inr (Some (round_down z)))
   \<and> spider_calculate_discount original current = calculate_discount original current
   \<and> calculate_discount (Some (NInt 1000)) (Some (NInt 750)) = Inr (Some 25)
   \<and> calculate_discount (Some (NInt 0)) (Some (NInt 750)) = Inr None
   \<and> calculate_discount (Some (NInt 1000)) (Some (NInt 1000)) = Inr (Some 0)
   \<and> calculate_discount (Some (NFloat (Fin 1000))) (Some (NFloat (Fin 750))) = Inr (Some 25)
   \<and> calculate_discount (Some (NFloat (Fin 0))) (Some (NFloat (Fin 750))) = Inr None
   \<and> calculate_discount (Some (NFloat (Fin 1000))) (Some (NFloat (Fin 1000))) = Inr (Some 0)"
  using calculate_discount_absent_iff [of original current]
    calculate_discount_value [of orig cur s q d y]
    calculate_discount_float [of a b z]
    spider_calculate_discount_same [of original current]
    calculate_discount_int_examples calculate_discount_float_examples
  by blast

theorem C10_calculate_discount_witness:
  "calculate_discount (Some (NFloat (Fin 200))) (Some (NFloat (Fin 150))) = Inr (Some 25)
   \<and> calculate_discount (Some (NInt 8)) (Some (NInt 6)) = Inr (Some 25)
   \<and> calculate_discount None (Some (NInt 5)) = Inr None
   \<and> spider_calculate_discount None (Some (NInt 5)) = Inr None"
proof -
  note c10 = C10_calculate_discount [where original = None and current = "Some (NInt 5)"
      and orig = "NInt 8" and cur = "NInt 6" and s = "NInt 2" and q = "NFloat (Fin (1 / 4))"
      and d = "NFloat (Fin 25)" and y = 25 and a = "Fin 200" and b = "Fin 150" and z = 25]
  have h1: "\<not> absent_or_zero (Some (NInt 8)) \<and> \<not> absent_or_zero (Some (NInt 6))
      \<and> \<not> num_le (NInt 8) (NInt 0)"
    by (simp add: absent_or_zero_def num_le_def)
  have h2: "py_mul (NFloat (Fin (1 / 4))) (NInt 100) = Inr (NFloat (Fin 25))"
    by (rule int_steps_1000_750(3))
  have h3: "clamp 0 100 (exact (NFloat (Fin 25))) = Some 25" by (simp add: clamp_def)
  have h4: "Fin 200 \<noteq> Fin 0 \<and> Fin 150 \<noteq> Fin 0 \<and> \<not> fle (Fin 200) (Fin 0)" by simp
  have h5: "clamp 0 100 (fmul (fdiv (fsub (Fin 200) (Fin 150)) (Fin 200)) (Fin 100)) = Some 25"
    by (simp only: percentage_200_150) (simp add: clamp_def)
  have h6: "absent_or_zero None" by (simp add: absent_or_zero_def)
  have r: "round_down 25 = 25" by (simp add: round_down_def)
  from c10 h1 int_steps_8_6 h2 h3
  have "calculate_discount (Some (NInt 8)) (Some (NInt 6)) = Inr (Some (round_down 25))"
    by blast
  moreover from c10 h4 h5
  have "calculate_discount (Some (NFloat (Fin 200))) (Some (NFloat (Fin 150)))
          = Inr (Some (round_down 25))"
    by blast
  moreover from c10 h6 have "calculate_discount None (Some (NInt 5)) = Inr None"
    and "spider_calculate_discount None (Some (NInt 5)) = Inr None"
    by simp_all
  ultimately show ?thesis by (simp add: r)
qed

text \<open>
  C10 as stated, with the formula read in exact arithmetic, fails at (100, 71): the
  formula gives 29 and the code returns 28, for floats and for integers.
\<close>

theorem C10_counterexample:
  "calculate_discount (Some (NFloat (Fin 100))) (Some (NFloat (Fin 71))) = Inr (Some 28)
   \<and> calculate_discount (Some (NInt 100)) (Some (NInt 71)) = Inr (Some 28)
   \<and> map_option round_down (clamp 0 100 (Fin ((100 - 71) / 100 * 100))) = Some 29"
  by (simp add: calculate_discount_100_71 clamp_def round_down_def)

section \<open>Properties of the proxy pool\<close>




























section \<open>Properties of the normalization pipeline\<close>

subsection \<open>Dictionaries\<close>

lemma map_of_dict_set: "map_of (dict_set d k v) = (map_of d)(k \<mapsto> v)"
  by (simp add: dict_set_def update_conv')

lemma dict_get_dict_set: "dict_get (dict_set d k v) k' = (if k' = k then v else dict_get d k')"
  by (simp add: dict_get_def map_of_dict_set)

lemma dict_has_dict_set: "dict_has (dict_set d k v) k' = (k' = k \<or> dict_has d k')"
  by (simp add: dict_has_def map_of_dict_set)

lemma dict_get_same: "map_of d' k = map_of d k \<Longrightarrow> dict_get d' k = dict_get d k"
  by (simp add: dict_get_def)

lemma dict_has_same: "map_of d' k = map_of d k \<Longrightarrow> dict_has d' k = dict_has d k"
  by (simp add: dict_has_def)

lemma dict_get_truthy_has: "truthy (dict_get d k) \<Longrightarrow> dict_has d k"
  by (auto simp: dict_get_def dict_has_def split: option.splits)

lemma dict_get_not_None_has: "dict_get d k \<noteq> PNone \<Longrightarrow> dict_has d k"
  by (auto simp: dict_get_def dict_has_def split: option.splits)

subsection \<open>What each step leaves alone\<close>

lemma fix_price_data_frame:
  "fix_price_data e item = Inr item' \<Longrightarrow> k \<noteq> ''price_data'' \<Longrightarrow> map_of item' k = map_of item k"
  by (auto simp: fix_price_data_def Let_def map_of_dict_set split: if_splits pyval.splits sum.splits)

lemma fix_stock_data_frame:
  "k \<noteq> ''stock_data'' \<Longrightarrow> map_of (fix_stock_data item) k = map_of item k"
  by (auto simp: fix_stock_data_def map_of_dict_set split: pyval.splits option.splits)

lemma fix_price_frame:
  "fix_price e item = Inr item' \<Longrightarrow> k \<noteq> ''price'' \<Longrightarrow> map_of item' k = map_of item k"
  by (auto simp: fix_price_def map_of_dict_set split: if_splits sum.splits)

lemma validation_frame:
  assumes "validation_process_item e item = Inr item'"
    and "k \<noteq> ''price_data''" "k \<noteq> ''stock_data''" "k \<noteq> ''price''"
  shows "map_of item' k = map_of item k"
proof -
  from assms(1) obtain item1 where
    a: "fix_price_data e item = Inr item1" and b: "fix_price e (fix_stock_data item1) = Inr item'"
    by (auto simp: validation_process_item_def Let_def split: if_splits sum.splits)
  from fix_price_frame [OF b assms(4)] fix_stock_data_frame [OF assms(3), of item1]
    fix_price_data_frame [OF a assms(2)]
  show ?thesis by simp
qed

lemma fill_default_frame: "k \<noteq> fst kv \<Longrightarrow> map_of (fill_default d kv) k = map_of d k"
  by (simp add: fill_default_def map_of_dict_set)

lemma fill_defaults_frame:
  "k \<notin> fst ` set table \<Longrightarrow> map_of (fill_defaults table d) k = map_of d k"
  unfolding fill_defaults_def
  by (induction table arbitrary: d) (auto simp: fill_default_frame)

lemma default_scraped_at_frame:
  "k \<noteq> ''scraped_at'' \<Longrightarrow> map_of (default_scraped_at e item) k = map_of item k"
  by (simp add: default_scraped_at_def map_of_dict_set)

lemma default_price_data_frame:
  "k \<noteq> ''price_data'' \<Longrightarrow> map_of (default_price_data item) k = map_of item k"
  by (auto simp: default_price_data_def Let_def map_of_dict_set split: pyval.splits)

lemma default_assets_frame:
  "k \<noteq> ''assets'' \<Longrightarrow> map_of (default_assets item) k = map_of item k"
  by (auto simp: default_assets_def map_of_dict_set split: pyval.splits)

lemma default_stock_data_frame:
  "k \<noteq> ''stock_data'' \<Longrightarrow> map_of (default_stock_data item) k = map_of item k"
  by (auto simp: default_stock_data_def map_of_dict_set split: pyval.splits)

lemma clean_string_field_frame:
  "k \<noteq> field \<Longrightarrow> map_of (clean_string_field item field) k = map_of item k"
  by (auto simp: clean_string_field_def Let_def map_of_dict_set split: pyval.splits)

lemma clean_string_fields_aux:
  "k \<notin> set fs \<Longrightarrow>
     map_of (fold (\<lambda>field acc. clean_string_field acc field) fs item) k = map_of item k"
  by (induction fs arbitrary: item) (auto simp: clean_string_field_frame)

lemma clean_string_fields_frame:
  "k \<notin> set string_fields \<Longrightarrow> map_of (clean_string_fields item) k = map_of item k"
  by (simp add: clean_string_fields_def clean_string_fields_aux)

lemma clean_marketing_tags_frame:
  "k \<noteq> ''marketing_tags'' \<Longrightarrow> map_of (clean_marketing_tags item) k = map_of item k"
  by (auto simp: clean_marketing_tags_def map_of_dict_set split: pyval.splits)

lemma clean_attributes_frame:
  "k \<noteq> ''attributes'' \<Longrightarrow> map_of (clean_attributes item) k = map_of item k"
  by (auto simp: clean_attributes_def map_of_dict_set split: pyval.splits)

lemma clean_image_urls_frame:
  "clean_image_urls item = Inr item' \<Longrightarrow> k \<noteq> ''image_urls'' \<Longrightarrow> map_of item' k = map_of item k"
  by (auto simp: clean_image_urls_def map_of_dict_set split: if_splits pyval.splits sum.splits)

lemma clean_tags_frame:
  "k \<noteq> ''tags'' \<Longrightarrow> map_of (clean_tags item) k = map_of item k"
  by (auto simp: clean_tags_def map_of_dict_set split: pyval.splits)

lemma clean_assets_frame:
  "clean_assets item = Inr item' \<Longrightarrow> k \<noteq> ''assets'' \<Longrightarrow> map_of item' k = map_of item k"
  by (auto simp: clean_assets_def map_of_dict_set split: if_splits pyval.splits sum.splits)

lemma clean_description_frame:
  "k \<noteq> ''description'' \<Longrightarrow> map_of (clean_description item) k = map_of item k"
  by (auto simp: clean_description_def Let_def map_of_dict_set split: pyval.splits)

lemma clean_nonneg_frame:
  "clean_nonneg e field item = Inr item' \<Longrightarrow> k \<noteq> field \<Longrightarrow> map_of item' k = map_of item k"
  by (auto simp: clean_nonneg_def map_of_dict_set split: if_splits sum.splits)

lemma clean_rating_frame:
  "clean_rating e item = Inr item' \<Longrightarrow> k \<noteq> ''rating'' \<Longrightarrow> map_of item' k = map_of item k"
  by (auto simp: clean_rating_def map_of_dict_set split: if_splits sum.splits)

lemma clean_discount_frame:
  "clean_discount e item = Inr item' \<Longrightarrow> k \<noteq> ''discount_percentage'' \<Longrightarrow>
     map_of item' k = map_of item k"
  by (auto simp: clean_discount_def map_of_dict_set split: if_splits sum.splits)

lemma clean_numbers_steps:
  assumes "clean_numbers e item = Inr out"
  obtains item1 item2 item3 where "clean_nonneg e ''price'' item = Inr item1"
    and "clean_nonneg e ''original_price'' item1 = Inr item2"
    and "clean_rating e item2 = Inr item3"
    and "clean_discount e item3 = Inr out"
  using assms by (auto simp: clean_numbers_def split: sum.splits)

subsection \<open>Validation of the required fields\<close>

lemma required_errors_empty:
  "(required_errors item = []) = (\<forall>field \<in> set required_fields. \<not> missing_field item field)"
  by (simp add: required_errors_def filter_empty_conv)

lemma validation_drops:
  assumes "field \<in> set required_fields" and "missing_field item field"
  shows "validation_process_item e item = Inl (DropItem (drop_message (required_errors item)))"
proof -
  from assms have "required_errors item \<noteq> []"
    by (auto simp: required_errors_empty)
  then show ?thesis by (simp add: validation_process_item_def)
qed

lemma validation_accepts_required:
  assumes "validation_process_item e item = Inr item'" and "field \<in> set required_fields"
  shows "\<not> missing_field item field"
proof -
  from assms(1) have "required_errors item = []"
    by (auto simp: validation_process_item_def Let_def split: if_splits)
  with assms(2) show ?thesis by (simp add: required_errors_empty)
qed

text \<open>
  C1. When a required field (\<^verbatim>\<open>product_id\<close>, \<^verbatim>\<open>name\<close>, \<^verbatim>\<open>product_url\<close>,
  \<^verbatim>\<open>scraped_at\<close>) is absent or empty (not in the record, or a value Python takes as
  false), \<^verbatim>\<open>normalize\<close> rejects the record with \<^verbatim>\<open>DropItem\<close>: the result is the
  validation stage's, no later stage runs, and the reason joins one message for each
  missing required field, in the order of the required fields.
\<close>

theorem C1_missing_required_rejected:
  assumes "field \<in> set required_fields"
    and "\<not> dict_has item field \<or> \<not> truthy (dict_get item field)"
  shows "normalize e item =
           Inl (DropItem (''Validation failed: '' @
                  py_join ''; '' (map (\<lambda>f. ''Missing required field: '' @ f)
                                   (filter (\<lambda>f. \<not> dict_has item f \<or> \<not> truthy (dict_get item f))
                                      required_fields))))
         \<and> normalize e item = validation_process_item e item
         \<and> ''Missing required field: '' @ field \<in> set (required_errors item)"
proof -
  from assms(2) have m: "missing_field item field" by (simp add: missing_field_def)
  have eq: "missing_field item = (\<lambda>f. \<not> dict_has item f \<or> \<not> truthy (dict_get item f))"
    by (auto simp: missing_field_def fun_eq_iff)
  from validation_drops [OF assms(1) m, of e]
  have v: "validation_process_item e item = Inl (DropItem (drop_message (required_errors item)))" .
  then have n: "normalize e item = Inl (DropItem (drop_message (required_errors item)))"
    by (simp add: normalize_def)
  have "''Missing required field: '' @ field \<in> set (required_errors item)"
    using assms(1) m by (auto simp: required_errors_def)
  with v n show ?thesis
    by (simp add: drop_message_def required_errors_def eq)
qed

theorem C1_missing_required_rejected_witness:
  "normalize env0 [(''name'', PStr ''Vodka''), (''product_url'', PStr []), (''scraped_at'', PInt 5)] =
     Inl (DropItem
       ''Validation failed: Missing required field: product_id; Missing required field: product_url'')"
proof -
  let ?item = "[(''name'', PStr ''Vodka''), (''product_url'', PStr []), (''scraped_at'', PInt 5)]"
  have a: "''product_url'' \<in> set required_fields" by (simp add: required_fields_def)
  have b: "\<not> dict_has ?item ''product_url'' \<or> \<not> truthy (dict_get ?item ''product_url'')"
    by (simp add: dict_get_def)
  from C1_missing_required_rejected [OF a b, of env0] show ?thesis
    by (simp add: required_fields_def dict_has_def dict_get_def)
qed

subsection \<open>What each stage leaves alone\<close>

lemma validation_stage_frame:
  assumes "validation_process_item e item = Inr item'" and "k \<notin> set validation_fields"
  shows "map_of item' k = map_of item k"
  using validation_frame [OF assms(1), of k] assms(2) by (simp add: validation_fields_def)

lemma defaults_stage_frame:
  assumes "k \<notin> set defaults_fields"
  shows "map_of (defaults_process_item e item) k = map_of item k"
proof -
  from assms have a: "k \<notin> fst ` set defaults" and b: "k \<noteq> ''scraped_at''"
    and c: "k \<noteq> ''price_data''" and d: "k \<noteq> ''assets''" and f: "k \<noteq> ''stock_data''"
    by (simp_all add: defaults_fields_def)
  show ?thesis
    unfolding defaults_process_item_def
    by (simp add: default_stock_data_frame [OF f] default_assets_frame [OF d]
        default_price_data_frame [OF c] default_scraped_at_frame [OF b]
        fill_defaults_frame [OF a])
qed

lemma cleaning_text_frame:
  assumes "cleaning_process_item e item = Inr out"
  shows "\<exists>mid. clean_numbers e mid = Inr out
           \<and> (\<forall>k. k \<notin> set cleaning_text_fields \<longrightarrow> map_of mid k = map_of item k)"
proof -
  from assms obtain item1 item2 where
    a: "clean_image_urls (clean_attributes (clean_marketing_tags (clean_string_fields item))) = Inr item1"
    and b: "clean_assets (clean_tags item1) = Inr item2"
    and c: "clean_numbers e (clean_description item2) = Inr out"
    by (auto simp: cleaning_process_item_def split: sum.splits)
  have "map_of (clean_description item2) k = map_of item k" if k: "k \<notin> set cleaning_text_fields" for k
  proof -
    from k have k1: "k \<notin> set string_fields" and k2: "k \<noteq> ''marketing_tags''"
      and k3: "k \<noteq> ''attributes''" and k4: "k \<noteq> ''image_urls''" and k5: "k \<noteq> ''tags''"
      and k6: "k \<noteq> ''assets''" and k7: "k \<noteq> ''description''"
      by (simp_all add: cleaning_text_fields_def)
    have "map_of item1 k = map_of item k"
      using clean_image_urls_frame [OF a k4]
      by (simp add: clean_attributes_frame [OF k3] clean_marketing_tags_frame [OF k2]
          clean_string_fields_frame [OF k1])
    moreover have "map_of item2 k = map_of item1 k"
      using clean_assets_frame [OF b k6] by (simp add: clean_tags_frame [OF k5])
    ultimately show ?thesis by (simp add: clean_description_frame [OF k7])
  qed
  with c show ?thesis by blast
qed

lemma clean_numbers_frame:
  assumes "clean_numbers e item = Inr out" and "k \<notin> set cleaning_number_fields"
  shows "map_of out k = map_of item k"
proof -
  from assms(2) have a: "k \<noteq> ''price''" and b: "k \<noteq> ''original_price''" and c: "k \<noteq> ''rating''"
    and d: "k \<noteq> ''discount_percentage''"
    by (simp_all add: cleaning_number_fields_def)
  from assms(1) obtain item1 item2 item3 where s1: "clean_nonneg e ''price'' item = Inr item1"
    and s2: "clean_nonneg e ''original_price'' item1 = Inr item2"
    and s3: "clean_rating e item2 = Inr item3"
    and s4: "clean_discount e item3 = Inr out"
    by (rule clean_numbers_steps)
  show ?thesis
    using clean_discount_frame [OF s4 d] clean_rating_frame [OF s3 c]
      clean_nonneg_frame [OF s2 b] clean_nonneg_frame [OF s1 a]
    by simp
qed

lemma cleaning_stage_frame:
  assumes "cleaning_process_item e item = Inr out"
    and "k \<notin> set cleaning_text_fields" "k \<notin> set cleaning_number_fields"
  shows "map_of out k = map_of item k"
proof -
  from cleaning_text_frame [OF assms(1)] obtain mid where m: "clean_numbers e mid = Inr out"
    and f: "\<forall>k. k \<notin> set cleaning_text_fields \<longrightarrow> map_of mid k = map_of item k"
    by blast
  from clean_numbers_frame [OF m assms(3)] f assms(2) show ?thesis by simp
qed

lemma normalize_stages:
  assumes "normalize e item = Inr out"
  obtains item1 where "validation_process_item e item = Inr item1"
    and "cleaning_process_item e (defaults_process_item e item1) = Inr out"
  using assms by (auto simp: normalize_def split: sum.splits)

lemma normalize_numbers_mid:
  assumes "normalize e item = Inr out"
  shows "\<exists>mid. clean_numbers e mid = Inr out
           \<and> (\<forall>k. k \<notin> set validation_fields \<and> k \<notin> set defaults_fields
                    \<and> k \<notin> set cleaning_text_fields \<longrightarrow> map_of mid k = map_of item k)"
proof -
  from assms obtain item1 where v: "validation_process_item e item = Inr item1"
    and c: "cleaning_process_item e (defaults_process_item e item1) = Inr out"
    by (rule normalize_stages)
  from cleaning_text_frame [OF c] obtain mid where
    m: "clean_numbers e mid = Inr out"
    and f: "\<forall>k. k \<notin> set cleaning_text_fields \<longrightarrow> map_of mid k = map_of (defaults_process_item e item1) k"
    by blast
  have "map_of mid k = map_of item k"
    if "k \<notin> set validation_fields" "k \<notin> set defaults_fields" "k \<notin> set cleaning_text_fields" for k
    using f that defaults_stage_frame [OF that(2), of e item1] validation_stage_frame [OF v that(1)]
    by simp
  with m show ?thesis by blast
qed

subsection \<open>The numeric ranges\<close>

lemma clean_discount_get:
  assumes "clean_discount e item = Inr out"
  shows "dict_get out ''discount_percentage'' =
     (let d = dict_get item ''discount_percentage''
      in if d = PNone then PNone
         else (case py_int e d of
                 Inr n \<Rightarrow> if n < 0 \<or> n > 100 then PInt 0 else d
               | Inl err \<Rightarrow> PNone))"
  using assms
  by (auto simp: clean_discount_def dict_get_dict_set Let_def split: sum.splits if_splits)

lemma clean_rating_get:
  assumes "clean_rating e item = Inr out"
  shows "dict_get out ''rating'' =
     (let r = dict_get item ''rating''
      in if r = PNone then PNone
         else (case py_float e r of
                 Inr x \<Rightarrow> if flt x (Fin 0) \<or> flt (Fin 5) x then PNone else r
               | Inl err \<Rightarrow> PNone))"
  using assms
  by (auto simp: clean_rating_def dict_get_dict_set Let_def split: sum.splits if_splits)

lemma clean_numbers_discount:
  assumes "clean_numbers e mid = Inr out"
  shows "dict_get out ''discount_percentage'' =
     (let d = dict_get mid ''discount_percentage''
      in if d = PNone then PNone
         else (case py_int e d of
                 Inr n \<Rightarrow> if n < 0 \<or> n > 100 then PInt 0 else d
               | Inl err \<Rightarrow> PNone))"
proof -
  from assms obtain item1 item2 item3 where s1: "clean_nonneg e ''price'' mid = Inr item1"
    and s2: "clean_nonneg e ''original_price'' item1 = Inr item2"
    and s3: "clean_rating e item2 = Inr item3"
    and s4: "clean_discount e item3 = Inr out"
    by (rule clean_numbers_steps)
  have "map_of item3 ''discount_percentage'' = map_of mid ''discount_percentage''"
    using clean_rating_frame [OF s3, of "''discount_percentage''"]
      clean_nonneg_frame [OF s2, of "''discount_percentage''"]
      clean_nonneg_frame [OF s1, of "''discount_percentage''"]
    by simp
  then have "dict_get item3 ''discount_percentage'' = dict_get mid ''discount_percentage''"
    by (rule dict_get_same)
  with clean_discount_get [OF s4] show ?thesis by simp
qed

lemma clean_numbers_rating:
  assumes "clean_numbers e mid = Inr out"
  shows "dict_get out ''rating'' =
     (let r = dict_get mid ''rating''
      in if r = PNone then PNone
         else (case py_float e r of
                 Inr x \<Rightarrow> if flt x (Fin 0) \<or> flt (Fin 5) x then PNone else r
               | Inl err \<Rightarrow> PNone))"
proof -
  from assms obtain item1 item2 item3 where s1: "clean_nonneg e ''price'' mid = Inr item1"
    and s2: "clean_nonneg e ''original_price'' item1 = Inr item2"
    and s3: "clean_rating e item2 = Inr item3"
    and s4: "clean_discount e item3 = Inr out"
    by (rule clean_numbers_steps)
  have "map_of item2 ''rating'' = map_of mid ''rating''"
    using clean_nonneg_frame [OF s2, of "''rating''"] clean_nonneg_frame [OF s1, of "''rating''"]
    by simp
  then have a: "dict_get item2 ''rating'' = dict_get mid ''rating''"
    by (rule dict_get_same)
  have "map_of out ''rating'' = map_of item3 ''rating''"
    using clean_discount_frame [OF s4, of "''rating''"] by simp
  then have "dict_get out ''rating'' = dict_get item3 ''rating''"
    by (rule dict_get_same)
  with clean_rating_get [OF s3] a show ?thesis by simp
qed

lemma normalize_discount:
  assumes "normalize e item = Inr out"
  shows "dict_get out ''discount_percentage'' =
     (let d = dict_get item ''discount_percentage''
      in if d = PNone then PNone
         else (case py_int e d of
                 Inr n \<Rightarrow> if n < 0 \<or> n > 100 then PInt 0 else d
               | Inl err \<Rightarrow> PNone))"
proof -
  from normalize_numbers_mid [OF assms] obtain mid where
    m: "clean_numbers e mid = Inr out" and
    f: "\<forall>k. k \<notin> set validation_fields \<and> k \<notin> set defaults_fields
                    \<and> k \<notin> set cleaning_text_fields \<longrightarrow> map_of mid k = map_of item k"
    by blast
  have "map_of mid ''discount_percentage'' = map_of item ''discount_percentage''"
    by (rule f [rule_format])
      (simp add: validation_fields_def defaults_fields_def defaults_def cleaning_text_fields_def
        string_fields_def)
  then have "dict_get mid ''discount_percentage'' = dict_get item ''discount_percentage''"
    by (rule dict_get_same)
  with clean_numbers_discount [OF m] show ?thesis by simp
qed

lemma normalize_rating:
  assumes "normalize e item = Inr out"
  shows "dict_get out ''rating'' =
     (let r = dict_get item ''rating''
      in if r = PNone then PNone
         else (case py_float e r of
                 Inr x \<Rightarrow> if flt x (Fin 0) \<or> flt (Fin 5) x then PNone else r
               | Inl err \<Rightarrow> PNone))"
proof -
  from normalize_numbers_mid [OF assms] obtain mid where
    m: "clean_numbers e mid = Inr out" and
    f: "\<forall>k. k \<notin> set validation_fields \<and> k \<notin> set defaults_fields
                    \<and> k \<notin> set cleaning_text_fields \<longrightarrow> map_of mid k = map_of item k"
    by blast
  have "map_of mid ''rating'' = map_of item ''rating''"
    by (rule f [rule_format])
      (simp add: validation_fields_def defaults_fields_def defaults_def cleaning_text_fields_def
        string_fields_def)
  then have "dict_get mid ''rating'' = dict_get item ''rating''"
    by (rule dict_get_same)
  with clean_numbers_rating [OF m] show ?thesis by simp
qed

text \<open>A float that is not NaN and is neither below 0 nor above 5 lies in 0..5.\<close>

lemma float_range:
  assumes "\<not> flt x (Fin 0)" "\<not> flt (Fin 5) x" "x \<noteq> NaN"
  shows "fle (Fin 0) x \<and> fle x (Fin 5)"
  using assms by (cases x) auto

lemma float_in_range_not_out:
  assumes "fle (Fin 0) x" "fle x (Fin 5)"
  shows "\<not> flt x (Fin 0) \<and> \<not> flt (Fin 5) x"
  using assms by (cases x) auto

text \<open>
  C4, as the code has it. In every record that \<^verbatim>\<open>normalize\<close> accepts,
  \<^verbatim>\<open>discount_percentage\<close> is absent (\<^verbatim>\<open>None\<close>) or a value whose integer conversion
  \<^verbatim>\<open>int(v)\<close> lies in 0..100: a value converting to an integer outside the range is set
  to 0, a value that does not convert is set to \<^verbatim>\<open>None\<close>, and a record without the
  field ends without it. \<^verbatim>\<open>rating\<close> is absent (\<^verbatim>\<open>None\<close>) or a value that converts to a
  float which, when it is a number (not NaN), lies in 0..5: a value below 0 or above 5,
  or one that does not convert, is set to \<^verbatim>\<open>None\<close>; a value in the range is kept as it is.
\<close>

theorem C4_discount_and_rating_ranges:
  assumes "normalize e item = Inr out"
  shows "(dict_get out ''discount_percentage'' = PNone
          \<or> (\<exists>n. py_int e (dict_get out ''discount_percentage'') = Inr n \<and> 0 \<le> n \<and> n \<le> 100))
       \<and> (\<forall>n. py_int e (dict_get item ''discount_percentage'') = Inr n \<and> (n < 0 \<or> 100 < n)
              \<longrightarrow> dict_get out ''discount_percentage'' = PInt 0)
       \<and> ((\<exists>err. py_int e (dict_get item ''discount_percentage'') = Inl err)
              \<longrightarrow> dict_get out ''discount_percentage'' = PNone)
       \<and> (dict_get out ''rating'' = PNone
          \<or> (\<exists>x. py_float e (dict_get out ''rating'') = Inr x
                 \<and> (x \<noteq> NaN \<longrightarrow> fle (Fin 0) x \<and> fle x (Fin 5))))
       \<and> (\<forall>x. py_float e (dict_get item ''rating'') = Inr x \<and> (flt x (Fin 0) \<or> flt (Fin 5) x)
              \<longrightarrow> dict_get out ''rating'' = PNone)
       \<and> ((\<exists>err. py_float e (dict_get item ''rating'') = Inl err)
              \<longrightarrow> dict_get out ''rating'' = PNone)
       \<and> (\<forall>x. py_float e (dict_get item ''rating'') = Inr x \<and> fle (Fin 0) x \<and> fle x (Fin 5)
              \<longrightarrow> dict_get out ''rating'' = dict_get item ''rating'')"
proof -
  let ?d = "dict_get item ''discount_percentage''" and ?r = "dict_get item ''rating''"
  note nd = normalize_discount [OF assms] and nr = normalize_rating [OF assms]
  have d1: "dict_get out ''discount_percentage'' = PNone
          \<or> (\<exists>n. py_int e (dict_get out ''discount_percentage'') = Inr n \<and> 0 \<le> n \<and> n \<le> 100)"
    by (cases "py_int e ?d") (auto simp: nd Let_def)
  have d2: "\<forall>n. py_int e ?d = Inr n \<and> (n < 0 \<or> 100 < n)
              \<longrightarrow> dict_get out ''discount_percentage'' = PInt 0"
    by (auto simp: nd Let_def)
  have d3: "(\<exists>err. py_int e ?d = Inl err) \<longrightarrow> dict_get out ''discount_percentage'' = PNone"
    by (auto simp: nd Let_def)
  have r1: "dict_get out ''rating'' = PNone
          \<or> (\<exists>x. py_float e (dict_get out ''rating'') = Inr x
                 \<and> (x \<noteq> NaN \<longrightarrow> fle (Fin 0) x \<and> fle x (Fin 5)))"
  proof (cases "py_float e ?r")
    case (Inl err)
    then show ?thesis by (simp add: nr Let_def)
  next
    case (Inr x)
    show ?thesis
    proof (cases "?r = PNone \<or> flt x (Fin 0) \<or> flt (Fin 5) x")
      case True
      with Inr show ?thesis by (auto simp: nr Let_def)
    next
      case False
      with Inr have "dict_get out ''rating'' = ?r" by (simp add: nr Let_def)
      with Inr False float_range [of x] show ?thesis by auto
    qed
  qed
  have r2: "\<forall>x. py_float e ?r = Inr x \<and> (flt x (Fin 0) \<or> flt (Fin 5) x)
              \<longrightarrow> dict_get out ''rating'' = PNone"
    by (auto simp: nr Let_def)
  have r4: "(\<exists>err. py_float e ?r = Inl err) \<longrightarrow> dict_get out ''rating'' = PNone"
    by (auto simp: nr Let_def)
  have r3: "\<forall>x. py_float e ?r = Inr x \<and> fle (Fin 0) x \<and> fle x (Fin 5)
              \<longrightarrow> dict_get out ''rating'' = dict_get item ''rating''"
    using float_in_range_not_out by (auto simp: nr Let_def)
  show ?thesis
    by (intro conjI) (rule d1, rule d2, rule d3, rule r1, rule r2, rule r4, rule r3)
qed

subsection \<open>The price clamps\<close>

lemma truthy_get_nonempty: "truthy (dict_get d k) \<Longrightarrow> d \<noteq> []"
  by (auto simp: dict_get_def)

lemma fix_price_data_clamps:
  assumes "dict_get item ''price_data'' = PDict pd"
    and "truthy (dict_get pd ''current'')" "truthy (dict_get pd ''original'')"
    and "py_float e (dict_get pd ''current'') = Inr c" "py_float e (dict_get pd ''original'') = Inr orig"
    and "flt orig c"
  shows "fix_price_data e item =
           Inr (dict_set item ''price_data'' (PDict (dict_set pd ''current'' (dict_get pd ''original''))))"
proof -
  from assms(2) have "pd \<noteq> []" by (rule truthy_get_nonempty)
  moreover from assms(2,3) have "dict_get pd ''current'' \<noteq> PNone" "dict_get pd ''original'' \<noteq> PNone"
    by auto
  ultimately show ?thesis
    using assms by (simp add: fix_price_data_def Let_def)
qed

lemma default_price_data_get:
  assumes "dict_get item ''price_data'' = PDict pd" and "pd \<noteq> []"
  shows "\<exists>pd2. dict_get (default_price_data item) ''price_data'' = PDict pd2
           \<and> (\<forall>k. k \<noteq> ''currency'' \<and> k \<noteq> ''sale_tag'' \<longrightarrow> map_of pd2 k = map_of pd k)
           \<and> dict_has pd2 ''currency'' \<and> truthy (dict_get pd2 ''currency'')
           \<and> dict_has pd2 ''sale_tag''
           \<and> dict_get pd2 ''currency'' =
                 (if \<not> dict_has pd ''currency'' \<or> \<not> truthy (dict_get pd ''currency'')
                  then PStr ''RUB'' else dict_get pd ''currency'')
           \<and> dict_get pd2 ''sale_tag'' = dict_get pd ''sale_tag''"
proof -
  define pd1 where "pd1 = (if \<not> dict_has pd ''currency'' \<or> \<not> truthy (dict_get pd ''currency'')
                         then dict_set pd ''currency'' (PStr ''RUB'') else pd)"
  define pd2 where "pd2 = (if \<not> dict_has pd1 ''sale_tag'' then dict_set pd1 ''sale_tag'' PNone else pd1)"
  from assms have "default_price_data item = dict_set item ''price_data'' (PDict pd2)"
    by (simp add: default_price_data_def pd1_def pd2_def Let_def)
  then have g: "dict_get (default_price_data item) ''price_data'' = PDict pd2"
    by (simp add: dict_get_dict_set)
  have c1: "dict_has pd1 ''currency'' \<and> truthy (dict_get pd1 ''currency'')"
    by (simp add: pd1_def dict_has_dict_set dict_get_dict_set)
  have v1: "dict_get pd1 ''currency'' =
              (if \<not> dict_has pd ''currency'' \<or> \<not> truthy (dict_get pd ''currency'')
               then PStr ''RUB'' else dict_get pd ''currency'')"
    by (simp add: pd1_def dict_get_dict_set)
  have f1: "map_of pd1 k = map_of pd k" if "k \<noteq> ''currency''" for k
    using that by (simp add: pd1_def map_of_dict_set)
  have c2: "dict_has pd2 ''currency'' \<and> truthy (dict_get pd2 ''currency'')"
    using c1 by (simp add: pd2_def dict_has_dict_set dict_get_dict_set)
  have v2: "dict_get pd2 ''currency'' = dict_get pd1 ''currency''"
    by (simp add: pd2_def dict_get_dict_set)
  have s2: "dict_has pd2 ''sale_tag''"
    by (simp add: pd2_def dict_has_dict_set)
  have "dict_get pd2 ''sale_tag'' = dict_get pd1 ''sale_tag''"
    by (auto simp: pd2_def dict_has_def dict_get_def map_of_dict_set)
  moreover have "dict_get pd1 ''sale_tag'' = dict_get pd ''sale_tag''"
    by (rule dict_get_same) (simp add: f1)
  ultimately have t2: "dict_get pd2 ''sale_tag'' = dict_get pd ''sale_tag''" by simp
  have f2: "map_of pd2 k = map_of pd1 k" if "k \<noteq> ''sale_tag''" for k
    using that by (simp add: pd2_def map_of_dict_set)
  have "\<forall>k. k \<noteq> ''currency'' \<and> k \<noteq> ''sale_tag'' \<longrightarrow> map_of pd2 k = map_of pd k"
    using f1 f2 by simp
  with g c2 s2 v1 v2 t2 show ?thesis by (intro exI [of _ pd2]) simp
qed

lemma clean_nonneg_get:
  assumes "clean_nonneg e field item = Inr out"
  shows "dict_get out field =
     (let v = dict_get item field
      in if v = PNone then PNone
         else (case py_float e v of
                 Inr x \<Rightarrow> if flt x (Fin 0) then PInt 0 else v
               | Inl err \<Rightarrow> PNone))"
  using assms
  by (auto simp: clean_nonneg_def dict_get_dict_set Let_def split: sum.splits if_splits)

lemma clean_numbers_price:
  assumes "clean_numbers e mid = Inr out"
  shows "dict_get out ''price'' =
     (let v = dict_get mid ''price''
      in if v = PNone then PNone
         else (case py_float e v of
                 Inr x \<Rightarrow> if flt x (Fin 0) then PInt 0 else v
               | Inl err \<Rightarrow> PNone))"
proof -
  from assms obtain item1 item2 item3 where s1: "clean_nonneg e ''price'' mid = Inr item1"
    and s2: "clean_nonneg e ''original_price'' item1 = Inr item2"
    and s3: "clean_rating e item2 = Inr item3"
    and s4: "clean_discount e item3 = Inr out"
    by (rule clean_numbers_steps)
  have "map_of out ''price'' = map_of item1 ''price''"
    using clean_discount_frame [OF s4, of "''price''"] clean_rating_frame [OF s3, of "''price''"]
      clean_nonneg_frame [OF s2, of "''price''"]
    by simp
  then have "dict_get out ''price'' = dict_get item1 ''price''"
    by (rule dict_get_same)
  with clean_nonneg_get [OF s1] show ?thesis by simp
qed

lemma clean_numbers_original_price:
  assumes "clean_numbers e mid = Inr out"
  shows "dict_get out ''original_price'' =
     (let v = dict_get mid ''original_price''
      in if v = PNone then PNone
         else (case py_float e v of
                 Inr x \<Rightarrow> if flt x (Fin 0) then PInt 0 else v
               | Inl err \<Rightarrow> PNone))"
proof -
  from assms obtain item1 item2 item3 where s1: "clean_nonneg e ''price'' mid = Inr item1"
    and s2: "clean_nonneg e ''original_price'' item1 = Inr item2"
    and s3: "clean_rating e item2 = Inr item3"
    and s4: "clean_discount e item3 = Inr out"
    by (rule clean_numbers_steps)
  have "map_of out ''original_price'' = map_of item2 ''original_price''"
    using clean_discount_frame [OF s4, of "''original_price''"]
      clean_rating_frame [OF s3, of "''original_price''"]
    by simp
  then have a: "dict_get out ''original_price'' = dict_get item2 ''original_price''"
    by (rule dict_get_same)
  have "map_of item1 ''original_price'' = map_of mid ''original_price''"
    using clean_nonneg_frame [OF s1, of "''original_price''"] by simp
  then have "dict_get item1 ''original_price'' = dict_get mid ''original_price''"
    by (rule dict_get_same)
  with clean_nonneg_get [OF s2] a show ?thesis by simp
qed

lemma normalize_price_data:
  assumes "normalize e item = Inr out"
    and "dict_get item ''price_data'' = PDict pd"
    and "truthy (dict_get pd ''current'')" "truthy (dict_get pd ''original'')"
    and "py_float e (dict_get pd ''current'') = Inr c" "py_float e (dict_get pd ''original'') = Inr orig"
    and "flt orig c"
  shows "\<exists>pd'. dict_get out ''price_data'' = PDict pd'
           \<and> dict_get pd' ''current'' = dict_get pd ''original''
           \<and> dict_get pd' ''original'' = dict_get pd ''original''"
proof -
  let ?pd1 = "dict_set pd ''current'' (dict_get pd ''original'')"
  from assms(1) obtain item1 where v: "validation_process_item e item = Inr item1"
    and c: "cleaning_process_item e (defaults_process_item e item1) = Inr out"
    by (rule normalize_stages)
  from v obtain item0 where a: "fix_price_data e item = Inr item0"
    and b: "fix_price e (fix_stock_data item0) = Inr item1"
    by (auto simp: validation_process_item_def Let_def split: if_splits sum.splits)
  from a fix_price_data_clamps [OF assms(2-7)]
  have "item0 = dict_set item ''price_data'' (PDict ?pd1)" by simp
  then have "dict_get item0 ''price_data'' = PDict ?pd1" by (simp add: dict_get_dict_set)
  moreover have "map_of item1 ''price_data'' = map_of item0 ''price_data''"
    using fix_price_frame [OF b, of "''price_data''"]
      fix_stock_data_frame [of "''price_data''" item0] by simp
  ultimately have g1: "dict_get item1 ''price_data'' = PDict ?pd1"
    by (simp add: dict_get_def)
  let ?it2 = "default_scraped_at e (fill_defaults defaults item1)"
  have "map_of ?it2 ''price_data'' = map_of item1 ''price_data''"
    by (simp add: default_scraped_at_frame fill_defaults_frame defaults_def)
  with g1 have g2: "dict_get ?it2 ''price_data'' = PDict ?pd1" by (simp add: dict_get_def)
  have ne: "?pd1 \<noteq> []" by (cases pd) (simp_all add: dict_set_def)
  from default_price_data_get [OF g2 ne] obtain pd2 where
    g3: "dict_get (default_price_data ?it2) ''price_data'' = PDict pd2"
    and f3: "\<forall>k. k \<noteq> ''currency'' \<and> k \<noteq> ''sale_tag'' \<longrightarrow> map_of pd2 k = map_of ?pd1 k"
    by blast
  have "map_of (defaults_process_item e item1) ''price_data''
          = map_of (default_price_data ?it2) ''price_data''"
    unfolding defaults_process_item_def
    by (simp add: default_stock_data_frame default_assets_frame)
  moreover have "map_of out ''price_data'' = map_of (defaults_process_item e item1) ''price_data''"
    by (rule cleaning_stage_frame [OF c])
      (simp_all add: cleaning_text_fields_def cleaning_number_fields_def string_fields_def)
  ultimately have g4: "dict_get out ''price_data'' = PDict pd2"
    using g3 by (simp add: dict_get_def)
  from f3 have "map_of pd2 ''current'' = map_of ?pd1 ''current''"
    and "map_of pd2 ''original'' = map_of ?pd1 ''original''" by simp_all
  then have "dict_get pd2 ''current'' = dict_get pd ''original''"
    and "dict_get pd2 ''original'' = dict_get pd ''original''"
    by (simp_all add: dict_get_def map_of_dict_set)
  with g4 show ?thesis by blast
qed

lemma normalize_top_prices:
  assumes "normalize e item = Inr out"
    and "dict_get item ''price'' \<noteq> PNone" "dict_get item ''original_price'' \<noteq> PNone"
    and "py_float e (dict_get item ''price'') = Inr p"
    and "py_float e (dict_get item ''original_price'') = Inr q"
    and "flt q p"
  shows "py_float e (dict_get out ''price'') = Inr (if flt q (Fin 0) then Fin 0 else q)
       \<and> py_float e (dict_get out ''original_price'') = Inr (if flt q (Fin 0) then Fin 0 else q)"
proof -
  from assms(1) obtain item1 where v: "validation_process_item e item = Inr item1"
    and c: "cleaning_process_item e (defaults_process_item e item1) = Inr out"
    by (rule normalize_stages)
  from v obtain item0 where a: "fix_price_data e item = Inr item0"
    and b: "fix_price e (fix_stock_data item0) = Inr item1"
    by (auto simp: validation_process_item_def Let_def split: if_splits sum.splits)
  let ?x = "fix_stock_data item0"
  have "map_of ?x ''price'' = map_of item ''price''"
    and "map_of ?x ''original_price'' = map_of item ''original_price''"
    using fix_price_data_frame [OF a, of "''price''"] fix_price_data_frame [OF a, of "''original_price''"]
    by (simp_all add: fix_stock_data_frame)
  then have x: "dict_get ?x ''price'' = dict_get item ''price''"
    "dict_get ?x ''original_price'' = dict_get item ''original_price''"
    by (simp_all add: dict_get_def)
  with b assms(2-6) have "item1 = dict_set ?x ''price'' (PFloat q)"
    by (simp add: fix_price_def)
  with x have i1: "dict_get item1 ''price'' = PFloat q"
    "dict_get item1 ''original_price'' = dict_get item ''original_price''"
    by (simp_all add: dict_get_dict_set)
  from cleaning_text_frame [OF c] obtain mid where
    m: "clean_numbers e mid = Inr out"
    and f: "\<forall>k. k \<notin> set cleaning_text_fields \<longrightarrow> map_of mid k = map_of (defaults_process_item e item1) k"
    by blast
  have "map_of mid ''price'' = map_of item1 ''price''"
    using f [rule_format, of "''price''"] defaults_stage_frame [of "''price''" e item1]
    by (simp add: cleaning_text_fields_def string_fields_def defaults_fields_def defaults_def)
  moreover have "map_of mid ''original_price'' = map_of item1 ''original_price''"
    using f [rule_format, of "''original_price''"] defaults_stage_frame [of "''original_price''" e item1]
    by (simp add: cleaning_text_fields_def string_fields_def defaults_fields_def defaults_def)
  ultimately have mid: "dict_get mid ''price'' = PFloat q"
    "dict_get mid ''original_price'' = dict_get item ''original_price''"
    using i1 by (simp_all add: dict_get_def)
  show ?thesis
    using assms(3,5) mid clean_numbers_price [OF m] clean_numbers_original_price [OF m]
    by (auto simp: Let_def float_of_int_0)
qed

text \<open>
  C2, as the code has it. In a record that \<^verbatim>\<open>normalize\<close> accepts: when
  \<^verbatim>\<open>price_data\<close> is a mapping whose \<^verbatim>\<open>current\<close> and \<^verbatim>\<open>original\<close> are both set and
  both true as Python values (so neither is zero) and \<^verbatim>\<open>float(current) > float(original)\<close>,
  the normalized \<^verbatim>\<open>price_data.current\<close> is the original and \<^verbatim>\<open>price_data.original\<close>
  is unchanged. When the top-level \<^verbatim>\<open>price\<close> and \<^verbatim>\<open>original_price\<close> are both set and
  \<^verbatim>\<open>float(price) > float(original_price)\<close>, the normalized price and original price are
  the same number: the original price as a float, or 0 when that was negative.
\<close>

theorem C2_price_clamp:
  assumes "normalize e item = Inr out"
  shows "(\<forall>pd c orig.
            dict_get item ''price_data'' = PDict pd
            \<and> truthy (dict_get pd ''current'') \<and> truthy (dict_get pd ''original'')
            \<and> py_float e (dict_get pd ''current'') = Inr c
            \<and> py_float e (dict_get pd ''original'') = Inr orig \<and> flt orig c
          \<longrightarrow> (\<exists>pd'. dict_get out ''price_data'' = PDict pd'
                   \<and> dict_get pd' ''current'' = dict_get pd ''original''
                   \<and> dict_get pd' ''original'' = dict_get pd ''original''))
       \<and> (\<forall>p q.
            dict_get item ''price'' \<noteq> PNone \<and> dict_get item ''original_price'' \<noteq> PNone
            \<and> py_float e (dict_get item ''price'') = Inr p
            \<and> py_float e (dict_get item ''original_price'') = Inr q \<and> flt q p
          \<longrightarrow> py_float e (dict_get out ''price'') = Inr (if flt q (Fin 0) then Fin 0 else q)
              \<and> py_float e (dict_get out ''original_price'')
                    = Inr (if flt q (Fin 0) then Fin 0 else q))"
  using normalize_price_data [OF assms] normalize_top_prices [OF assms] by blast

subsection \<open>Concrete records\<close>

theorem C2_price_clamp_witness:
  "\<exists>out. normalize env0
       [(''product_id'', PStr ''1''), (''name'', PStr ''A''), (''product_url'', PStr ''https://x''),
        (''scraped_at'', PInt 1), (''price'', PFloat (Fin 2000)),
        (''original_price'', PFloat (Fin 1500)),
        (''price_data'', PDict [(''current'', PFloat (Fin 1500)), (''original'', PFloat (Fin 1000))])]
       = Inr out
     \<and> py_float env0 (dict_get out ''price'') = Inr (Fin 1500)
     \<and> py_float env0 (dict_get out ''original_price'') = Inr (Fin 1500)
     \<and> (\<exists>pd'. dict_get out ''price_data'' = PDict pd'
             \<and> dict_get pd' ''current'' = PFloat (Fin 1000)
             \<and> dict_get pd' ''original'' = PFloat (Fin 1000))"
proof -
  let ?pd = "[(''current'', PFloat (Fin 1500)), (''original'', PFloat (Fin 1000))]"
  let ?item = "[(''product_id'', PStr ''1''), (''name'', PStr ''A''), (''product_url'', PStr ''https://x''),
        (''scraped_at'', PInt 1), (''price'', PFloat (Fin 2000)),
        (''original_price'', PFloat (Fin 1500)), (''price_data'', PDict ?pd)]"
  have "\<not> isl (normalize env0 ?item)"
    by code_simp
  then obtain out where n: "normalize env0 ?item = Inr out"
    by (cases "normalize env0 ?item") simp_all
  have a: "\<exists>pd'. dict_get out ''price_data'' = PDict pd'
             \<and> dict_get pd' ''current'' = dict_get ?pd ''original''
             \<and> dict_get pd' ''original'' = dict_get ?pd ''original''"
    by (rule C2_price_clamp [OF n, THEN conjunct1, rule_format, of ?pd "Fin 1500" "Fin 1000"])
      (simp add: dict_get_def)
  have b: "py_float env0 (dict_get out ''price'')
             = Inr (if flt (Fin 1500) (Fin 0) then Fin 0 else Fin 1500)
         \<and> py_float env0 (dict_get out ''original_price'')
             = Inr (if flt (Fin 1500) (Fin 0) then Fin 0 else Fin 1500)"
    by (rule C2_price_clamp [OF n, THEN conjunct2, rule_format, of "Fin 2000" "Fin 1500"])
      (simp add: dict_get_def)
  from a b n show ?thesis by (simp add: dict_get_def)
qed

text \<open>
  C2 as stated fails when the original is set to zero: the validation compares only
  values that are true in Python, so a current price of 5 over an original of 0 stays.
\<close>

theorem C2_counterexample:
  "nested_of (normalize env0
       [(''product_id'', PStr ''1''), (''name'', PStr ''A''), (''product_url'', PStr ''https://x''),
        (''scraped_at'', PInt 1),
        (''price_data'', PDict [(''current'', PInt 5), (''original'', PInt 0)])])
     ''price_data'' ''current'' = Inr (PInt 5)
   \<and> nested_of (normalize env0
       [(''product_id'', PStr ''1''), (''name'', PStr ''A''), (''product_url'', PStr ''https://x''),
        (''scraped_at'', PInt 1),
        (''price_data'', PDict [(''current'', PInt 5), (''original'', PInt 0)])])
     ''price_data'' ''original'' = Inr (PInt 0)"
  by code_simp

theorem C4_discount_and_rating_ranges_witness:
  "\<exists>out. normalize env0
       [(''product_id'', PStr ''1''), (''name'', PStr ''A''), (''product_url'', PStr ''https://x''),
        (''scraped_at'', PInt 1), (''rating'', PFloat (Fin (13 / 2))), (''discount_percentage'', PInt 150)]
      = Inr out
     \<and> dict_get out ''discount_percentage'' = PInt 0 \<and> dict_get out ''rating'' = PNone"
proof -
  let ?item = "[(''product_id'', PStr ''1''), (''name'', PStr ''A''), (''product_url'', PStr ''https://x''),
        (''scraped_at'', PInt 1), (''rating'', PFloat (Fin (13 / 2))), (''discount_percentage'', PInt 150)]"
  have "\<not> isl (normalize env0 ?item)"
    by code_simp
  then obtain out where n: "normalize env0 ?item = Inr out"
    by (cases "normalize env0 ?item") simp_all
  note c = C4_discount_and_rating_ranges [OF n]
  have "dict_get out ''discount_percentage'' = PInt 0"
    by (rule c [THEN conjunct2, THEN conjunct1, rule_format, of 150]) (simp add: dict_get_def)
  moreover have "dict_get out ''rating'' = PNone"
    by (rule c [THEN conjunct2, THEN conjunct2, THEN conjunct2, THEN conjunct2, THEN conjunct1,
          rule_format, of "Fin (13 / 2)"]) (simp add: dict_get_def)
  ultimately show ?thesis using n by simp
qed

text \<open>
  C4 as stated asks for a discount within 0..100 in every accepted record. A record
  without the field is accepted and ends without it, and a discount that does not
  convert to an integer is set to \<^verbatim>\<open>None\<close>, not to 0.
\<close>

theorem C4_counterexample:
  "field_of (normalize env0
       [(''product_id'', PStr ''1''), (''name'', PStr ''A''), (''product_url'', PStr ''https://x''),
        (''scraped_at'', PInt 1)]) ''discount_percentage'' = Inr PNone
   \<and> field_of (normalize env0
       [(''product_id'', PStr ''1''), (''name'', PStr ''A''), (''product_url'', PStr ''https://x''),
        (''scraped_at'', PInt 1), (''discount_percentage'', PList [PInt 50])])
      ''discount_percentage'' = Inr PNone
   \<and> \<not> in_range 0 100 PNone"
  by code_simp

subsection \<open>The required fields of an accepted record\<close>

lemma normalize_keeps_ids:
  assumes "normalize e item = Inr out" and "k = ''product_id'' \<or> k = ''product_url''"
  shows "dict_get out k = dict_get item k \<and> truthy (dict_get out k)"
proof -
  from assms(1) obtain item1 where v: "validation_process_item e item = Inr item1"
    and c: "cleaning_process_item e (defaults_process_item e item1) = Inr out"
    by (rule normalize_stages)
  from assms(2) have r: "k \<in> set required_fields" by (auto simp: required_fields_def)
  from validation_accepts_required [OF v r] have t: "truthy (dict_get item k)"
    by (simp add: missing_field_def)
  have "map_of item1 k = map_of item k"
    using assms(2) by (intro validation_stage_frame [OF v]) (auto simp: validation_fields_def)
  moreover have "map_of (defaults_process_item e item1) k = map_of item1 k"
    using assms(2) by (intro defaults_stage_frame) (auto simp: defaults_fields_def defaults_def)
  moreover have "map_of out k = map_of (defaults_process_item e item1) k"
    using assms(2)
    by (intro cleaning_stage_frame [OF c])
      (auto simp: cleaning_text_fields_def cleaning_number_fields_def string_fields_def)
  ultimately have "dict_get out k = dict_get item k" by (simp add: dict_get_def)
  with t show ?thesis by simp
qed

lemma normalize_keeps_scraped_at:
  assumes "normalize e item = Inr out"
  shows "dict_get out ''scraped_at'' = dict_get item ''scraped_at'' \<and> truthy (dict_get out ''scraped_at'')"
proof -
  from assms(1) obtain item1 where v: "validation_process_item e item = Inr item1"
    and c: "cleaning_process_item e (defaults_process_item e item1) = Inr out"
    by (rule normalize_stages)
  have r: "''scraped_at'' \<in> set required_fields" by (simp add: required_fields_def)
  from validation_accepts_required [OF v r] have t: "truthy (dict_get item ''scraped_at'')"
    by (simp add: missing_field_def)
  have "map_of item1 ''scraped_at'' = map_of item ''scraped_at''"
    by (intro validation_stage_frame [OF v]) (simp add: validation_fields_def)
  then have i1: "dict_get item1 ''scraped_at'' = dict_get item ''scraped_at''" by (rule dict_get_same)
  let ?x = "fill_defaults defaults item1"
  have "map_of ?x ''scraped_at'' = map_of item1 ''scraped_at''"
    by (simp add: fill_defaults_frame defaults_def)
  then have x: "dict_get ?x ''scraped_at'' = dict_get item ''scraped_at''"
    using i1 by (simp add: dict_get_def)
  with t have "dict_get ?x ''scraped_at'' \<noteq> PNone" by auto
  then have "default_scraped_at e ?x = ?x" by (simp add: default_scraped_at_def)
  then have "map_of (defaults_process_item e item1) ''scraped_at'' = map_of ?x ''scraped_at''"
    by (simp add: defaults_process_item_def default_stock_data_frame default_assets_frame
        default_price_data_frame)
  moreover have "map_of out ''scraped_at'' = map_of (defaults_process_item e item1) ''scraped_at''"
    by (intro cleaning_stage_frame [OF c])
      (simp_all add: cleaning_text_fields_def cleaning_number_fields_def string_fields_def)
  ultimately have "dict_get out ''scraped_at'' = dict_get ?x ''scraped_at''" by (simp add: dict_get_def)
  with x t show ?thesis by simp
qed

text \<open>
  C3 says that an accepted record ends with every required field present and non-empty.
  That holds for \<^verbatim>\<open>product_id\<close>, \<^verbatim>\<open>product_url\<close> and \<^verbatim>\<open>scraped_at\<close>, which no
  stage changes (the two lemmas above). It fails for \<^verbatim>\<open>name\<close>: the validation takes a
  name of whitespace only as present (it is a non-empty string), and the cleaning stage
  then collapses it to the empty string. The record below is accepted and its final
  name is empty.
\<close>

theorem C3_blank_name_accepted:
  "validation_process_item env0
       [(''product_id'', PStr ''1''), (''name'', PStr '' ''), (''product_url'', PStr ''https://x''),
        (''scraped_at'', PInt 1)] =
     Inr [(''product_id'', PStr ''1''), (''name'', PStr '' ''), (''product_url'', PStr ''https://x''),
          (''scraped_at'', PInt 1)]
   \<and> normalize env0
       [(''product_id'', PStr ''1''), (''name'', PStr '' ''), (''product_url'', PStr ''https://x''),
        (''scraped_at'', PInt 1)] =
     Inr [(''product_id'', PStr ''1''), (''name'', PStr []), (''product_url'', PStr ''https://x''),
          (''scraped_at'', PInt 1), (''marketing_tags'', PList []), (''attributes'', PDict []),
          (''image_urls'', PList []), (''tags'', PList []), (''validation_errors'', PList []),
          (''scraper_notes'', PStr []), (''is_valid'', PBool True), (''review_count'', PInt 0),
          (''stock_quantity'', PInt 0), (''currency'', PStr ''RUB''),
          (''region'', PStr ''krasnodar''), (''source'', PStr ''alkoteka.com'')]"
  by code_simp

subsection \<open>The defaults of the nested structures\<close>

lemma fill_default_get:
  "map_of (fill_default d kv) (fst kv) =
     Some (if \<not> dict_has d (fst kv) \<or> dict_get d (fst kv) = PNone then snd kv else dict_get d (fst kv))"
  by (auto simp: fill_default_def map_of_dict_set dict_has_def dict_get_def split: option.splits)

lemma fill_defaults_get:
  assumes "distinct (map fst table)" and "(k, v) \<in> set table"
  shows "map_of (fill_defaults table d) k =
           Some (if \<not> dict_has d k \<or> dict_get d k = PNone then v else dict_get d k)"
  using assms
proof (induction table arbitrary: d)
  case Nil
  then show ?case by simp
next
  case (Cons kv rest)
  have step: "fill_defaults (kv # rest) d = fill_defaults rest (fill_default d kv)"
    by (simp add: fill_defaults_def)
  show ?case
  proof (cases "(k, v) = kv")
    case True
    with Cons.prems have "k \<notin> fst ` set rest" by force
    then have "map_of (fill_defaults rest (fill_default d kv)) k = map_of (fill_default d kv) k"
      by (rule fill_defaults_frame)
    with True fill_default_get [of d kv] step show ?thesis by auto
  next
    case False
    with Cons.prems have in_rest: "(k, v) \<in> set rest" and d: "distinct (map fst rest)" by auto
    from Cons.prems(1) have "fst kv \<notin> fst ` set rest" by simp
    with in_rest have ne: "k \<noteq> fst kv" by (metis fst_conv image_eqI)
    from fill_default_frame [OF ne, of d]
    have "dict_has (fill_default d kv) k = dict_has d k"
      and "dict_get (fill_default d kv) k = dict_get d k"
      by (simp_all add: dict_has_def dict_get_def)
    with Cons.IH [OF d in_rest, of "fill_default d kv"] step show ?thesis by simp
  qed
qed

lemma default_stock_data_get:
  assumes "dict_get item ''stock_data'' = PDict sd" and "sd \<noteq> []"
  shows "dict_get (default_stock_data item) ''stock_data'' = PDict (fill_defaults defaults_stock sd)"
  using assms by (simp add: default_stock_data_def dict_get_dict_set)

lemma default_assets_get:
  assumes "dict_get item ''assets'' = PDict a" and "a \<noteq> []"
  shows "dict_get (default_assets item) ''assets'' = PDict (fill_defaults defaults_assets a)"
  using assms by (simp add: default_assets_def dict_get_dict_set)

lemma defaults_stage_stock_data:
  assumes "dict_get item ''stock_data'' = PDict sd" and "sd \<noteq> []"
  shows "dict_get (defaults_process_item e item) ''stock_data'' = PDict (fill_defaults defaults_stock sd)"
proof -
  let ?x = "default_assets (default_price_data (default_scraped_at e (fill_defaults defaults item)))"
  have "map_of ?x ''stock_data'' = map_of item ''stock_data''"
    by (simp add: default_assets_frame default_price_data_frame default_scraped_at_frame
        fill_defaults_frame defaults_def)
  with assms(1) have "dict_get ?x ''stock_data'' = PDict sd" by (simp add: dict_get_def)
  from default_stock_data_get [OF this assms(2)] show ?thesis
    by (simp add: defaults_process_item_def)
qed

lemma defaults_stage_assets:
  assumes "dict_get item ''assets'' = PDict a" and "a \<noteq> []"
  shows "dict_get (defaults_process_item e item) ''assets'' = PDict (fill_defaults defaults_assets a)"
proof -
  let ?x = "default_price_data (default_scraped_at e (fill_defaults defaults item))"
  have "map_of ?x ''assets'' = map_of item ''assets''"
    by (simp add: default_price_data_frame default_scraped_at_frame fill_defaults_frame defaults_def)
  with assms(1) have "dict_get ?x ''assets'' = PDict a" by (simp add: dict_get_def)
  from default_assets_get [OF this assms(2)]
  have "dict_get (default_assets ?x) ''assets'' = PDict (fill_defaults defaults_assets a)" .
  moreover have "map_of (defaults_process_item e item) ''assets'' = map_of (default_assets ?x) ''assets''"
    by (simp add: defaults_process_item_def default_stock_data_frame)
  ultimately show ?thesis by (simp add: dict_get_def)
qed

lemma defaults_stage_price_data:
  assumes "dict_get item ''price_data'' = PDict pd" and "pd \<noteq> []"
  shows "\<exists>pd2. dict_get (defaults_process_item e item) ''price_data'' = PDict pd2
           \<and> (\<forall>k. k \<noteq> ''currency'' \<and> k \<noteq> ''sale_tag'' \<longrightarrow> map_of pd2 k = map_of pd k)
           \<and> dict_has pd2 ''currency'' \<and> truthy (dict_get pd2 ''currency'')
           \<and> dict_has pd2 ''sale_tag''
           \<and> dict_get pd2 ''currency'' =
                 (if \<not> dict_has pd ''currency'' \<or> \<not> truthy (dict_get pd ''currency'')
                  then PStr ''RUB'' else dict_get pd ''currency'')
           \<and> dict_get pd2 ''sale_tag'' = dict_get pd ''sale_tag''"
proof -
  let ?x = "default_scraped_at e (fill_defaults defaults item)"
  have "map_of ?x ''price_data'' = map_of item ''price_data''"
    by (simp add: default_scraped_at_frame fill_defaults_frame defaults_def)
  with assms(1) have g: "dict_get ?x ''price_data'' = PDict pd" by (simp add: dict_get_def)
  have "map_of (defaults_process_item e item) ''price_data'' = map_of (default_price_data ?x) ''price_data''"
    by (simp add: defaults_process_item_def default_stock_data_frame default_assets_frame)
  then have "dict_get (defaults_process_item e item) ''price_data''
               = dict_get (default_price_data ?x) ''price_data''"
    by (rule dict_get_same)
  with default_price_data_get [OF g assms(2)] show ?thesis by simp
qed

lemma defaults_stage_skips:
  assumes "\<not> truthy (dict_get item k)" and "k \<in> {''price_data'', ''stock_data'', ''assets''}"
  shows "dict_get (defaults_process_item e item) k = dict_get item k"
proof -
  let ?x = "default_scraped_at e (fill_defaults defaults item)"
  from assms(2) have "map_of ?x k = map_of item k"
    by (auto simp: default_scraped_at_frame fill_defaults_frame defaults_def)
  then have x: "dict_get ?x k = dict_get item k" by (rule dict_get_same)
  have a: "dict_get (default_price_data ?x) k = dict_get item k"
  proof (cases "k = ''price_data''")
    case True
    with assms(1) x show ?thesis by (simp add: default_price_data_def)
  next
    case False
    with x show ?thesis by (simp add: dict_get_def default_price_data_frame)
  qed
  have b: "dict_get (default_assets (default_price_data ?x)) k = dict_get item k"
  proof (cases "k = ''assets''")
    case True
    with assms(1) a show ?thesis by (simp add: default_assets_def)
  next
    case False
    with a show ?thesis by (simp add: dict_get_def default_assets_frame)
  qed
  show ?thesis
  proof (cases "k = ''stock_data''")
    case True
    with assms(1) b show ?thesis by (simp add: defaults_process_item_def default_stock_data_def)
  next
    case False
    with b show ?thesis by (simp add: defaults_process_item_def dict_get_def default_stock_data_frame)
  qed
qed

text \<open>
  C5, as the code has it. After the Defaulting stage: when \<^verbatim>\<open>stock_data\<close> is a
  non-empty mapping, each of \<^verbatim>\<open>in_stock\<close>, \<^verbatim>\<open>count\<close>, \<^verbatim>\<open>status\<close>,
  \<^verbatim>\<open>available_regions\<close> is present, with its default where it was missing or
  \<^verbatim>\<open>None\<close> and its value otherwise; the same holds for \<^verbatim>\<open>assets\<close> and
  \<^verbatim>\<open>main_image\<close>, \<^verbatim>\<open>gallery_images\<close>, \<^verbatim>\<open>view_360\<close>, \<^verbatim>\<open>video\<close>,
  \<^verbatim>\<open>cached_images\<close>; when \<^verbatim>\<open>price_data\<close> is a non-empty mapping it has a
  \<^verbatim>\<open>currency\<close> (\<^verbatim>\<open>RUB\<close> where it was missing or false as a Python value) and a
  \<^verbatim>\<open>sale_tag\<close> key (\<^verbatim>\<open>None\<close> where it was missing), and its other keys
  (\<^verbatim>\<open>current\<close> and \<^verbatim>\<open>original\<close> among them) are as they were. A nested structure
  that is absent, \<^verbatim>\<open>None\<close> or empty is left as it is.
\<close>

theorem C5_nested_defaults:
  "(\<forall>sd. dict_get item ''stock_data'' = PDict sd \<and> sd \<noteq> [] \<longrightarrow>
      (\<exists>sd'. dict_get (defaults_process_item e item) ''stock_data'' = PDict sd'
         \<and> (\<forall>(k, v) \<in> set defaults_stock.
               dict_has sd' k
               \<and> dict_get sd' k = (if \<not> dict_has sd k \<or> dict_get sd k = PNone then v else dict_get sd k))))
   \<and> (\<forall>a. dict_get item ''assets'' = PDict a \<and> a \<noteq> [] \<longrightarrow>
      (\<exists>a'. dict_get (defaults_process_item e item) ''assets'' = PDict a'
         \<and> (\<forall>(k, v) \<in> set defaults_assets.
               dict_has a' k
               \<and> dict_get a' k = (if \<not> dict_has a k \<or> dict_get a k = PNone then v else dict_get a k))))
   \<and> (\<forall>pd. dict_get item ''price_data'' = PDict pd \<and> pd \<noteq> [] \<longrightarrow>
      (\<exists>pd'. dict_get (defaults_process_item e item) ''price_data'' = PDict pd'
         \<and> dict_has pd' ''currency'' \<and> truthy (dict_get pd' ''currency'')
         \<and> dict_get pd' ''currency'' =
               (if \<not> dict_has pd ''currency'' \<or> \<not> truthy (dict_get pd ''currency'')
                then PStr ''RUB'' else dict_get pd ''currency'')
         \<and> dict_has pd' ''sale_tag'' \<and> dict_get pd' ''sale_tag'' = dict_get pd ''sale_tag''
         \<and> (\<forall>k. k \<noteq> ''currency'' \<and> k \<noteq> ''sale_tag'' \<longrightarrow> map_of pd' k = map_of pd k)))
   \<and> (\<forall>k \<in> {''price_data'', ''stock_data'', ''assets''}.
        \<not> truthy (dict_get item k) \<longrightarrow> dict_get (defaults_process_item e item) k = dict_get item k)"
proof -
  have tab: "\<forall>(k, v) \<in> set table.
               dict_has (fill_defaults table d) k
               \<and> dict_get (fill_defaults table d) k =
                   (if \<not> dict_has d k \<or> dict_get d k = PNone then v else dict_get d k)"
    if "distinct (map fst table)" for table and d :: pydict
    using fill_defaults_get [OF that, of _ _ d]
    by (auto simp: dict_has_def dict_get_def)
  have ds: "distinct (map fst defaults_stock)" by (simp add: defaults_stock_def)
  have da: "distinct (map fst defaults_assets)" by (simp add: defaults_assets_def)
  have s: "\<forall>sd. dict_get item ''stock_data'' = PDict sd \<and> sd \<noteq> [] \<longrightarrow>
      (\<exists>sd'. dict_get (defaults_process_item e item) ''stock_data'' = PDict sd'
         \<and> (\<forall>(k, v) \<in> set defaults_stock.
               dict_has sd' k
               \<and> dict_get sd' k = (if \<not> dict_has sd k \<or> dict_get sd k = PNone then v else dict_get sd k)))"
    using defaults_stage_stock_data [of item _ e] tab [OF ds] by blast
  have a: "\<forall>a. dict_get item ''assets'' = PDict a \<and> a \<noteq> [] \<longrightarrow>
      (\<exists>a'. dict_get (defaults_process_item e item) ''assets'' = PDict a'
         \<and> (\<forall>(k, v) \<in> set defaults_assets.
               dict_has a' k
               \<and> dict_get a' k = (if \<not> dict_has a k \<or> dict_get a k = PNone then v else dict_get a k)))"
    using defaults_stage_assets [of item _ e] tab [OF da] by blast
  have p: "\<forall>pd. dict_get item ''price_data'' = PDict pd \<and> pd \<noteq> [] \<longrightarrow>
      (\<exists>pd'. dict_get (defaults_process_item e item) ''price_data'' = PDict pd'
         \<and> dict_has pd' ''currency'' \<and> truthy (dict_get pd' ''currency'')
         \<and> dict_get pd' ''currency'' =
               (if \<not> dict_has pd ''currency'' \<or> \<not> truthy (dict_get pd ''currency'')
                then PStr ''RUB'' else dict_get pd ''currency'')
         \<and> dict_has pd' ''sale_tag'' \<and> dict_get pd' ''sale_tag'' = dict_get pd ''sale_tag''
         \<and> (\<forall>k. k \<noteq> ''currency'' \<and> k \<noteq> ''sale_tag'' \<longrightarrow> map_of pd' k = map_of pd k))"
    using defaults_stage_price_data [of item _ e] by blast
  have k: "\<forall>k \<in> {''price_data'', ''stock_data'', ''assets''}.
        \<not> truthy (dict_get item k) \<longrightarrow> dict_get (defaults_process_item e item) k = dict_get item k"
    using defaults_stage_skips [of item _ e] by blast
  show ?thesis
    by (intro conjI) (rule s, rule a, rule p, rule k)
qed

theorem C5_nested_defaults_witness:
  "\<exists>sd' pd'.
     dict_get (defaults_process_item env0
        [(''stock_data'', PDict [(''in_stock'', PNone)]), (''price_data'', PDict [(''current'', PInt 7)])])
        ''stock_data'' = PDict sd'
     \<and> dict_get sd' ''in_stock'' = PBool False \<and> dict_get sd' ''count'' = PInt 0
     \<and> dict_get sd' ''status'' = PStr ''unknown'' \<and> dict_get sd' ''available_regions'' = PList []
     \<and> dict_get (defaults_process_item env0
        [(''stock_data'', PDict [(''in_stock'', PNone)]), (''price_data'', PDict [(''current'', PInt 7)])])
        ''price_data'' = PDict pd'
     \<and> dict_has pd' ''sale_tag'' \<and> truthy (dict_get pd' ''currency'')"
proof -
  let ?item = "[(''stock_data'', PDict [(''in_stock'', PNone)]), (''price_data'', PDict [(''current'', PInt 7)])]"
  note c = C5_nested_defaults [of ?item env0]
  have "\<exists>sd'. dict_get (defaults_process_item env0 ?item) ''stock_data'' = PDict sd'
         \<and> (\<forall>(k, v) \<in> set defaults_stock.
               dict_has sd' k
               \<and> dict_get sd' k = (if \<not> dict_has [(''in_stock'', PNone)] k
                                        \<or> dict_get [(''in_stock'', PNone)] k = PNone then v
                                     else dict_get [(''in_stock'', PNone)] k))"
    by (rule c [THEN conjunct1, rule_format]) (simp add: dict_get_def)
  then obtain sd' where s: "dict_get (defaults_process_item env0 ?item) ''stock_data'' = PDict sd'"
    and s2: "dict_get sd' ''in_stock'' = PBool False" "dict_get sd' ''count'' = PInt 0"
      "dict_get sd' ''status'' = PStr ''unknown''" "dict_get sd' ''available_regions'' = PList []"
    by (auto simp: defaults_stock_def dict_has_def dict_get_def)
  have "\<exists>pd'. dict_get (defaults_process_item env0 ?item) ''price_data'' = PDict pd'
         \<and> dict_has pd' ''currency'' \<and> truthy (dict_get pd' ''currency'')
         \<and> dict_get pd' ''currency'' =
               (if \<not> dict_has [(''current'', PInt 7)] ''currency''
                   \<or> \<not> truthy (dict_get [(''current'', PInt 7)] ''currency'')
                then PStr ''RUB'' else dict_get [(''current'', PInt 7)] ''currency'')
         \<and> dict_has pd' ''sale_tag''
         \<and> dict_get pd' ''sale_tag'' = dict_get [(''current'', PInt 7)] ''sale_tag''
         \<and> (\<forall>k. k \<noteq> ''currency'' \<and> k \<noteq> ''sale_tag'' \<longrightarrow> map_of pd' k = map_of [(''current'', PInt 7)] k)"
    by (rule c [THEN conjunct2, THEN conjunct2, THEN conjunct1, rule_format]) (simp add: dict_get_def)
  then obtain pd' where "dict_get (defaults_process_item env0 ?item) ''price_data'' = PDict pd'"
    "dict_has pd' ''sale_tag''" "truthy (dict_get pd' ''currency'')"
    by blast
  with s s2 show ?thesis by blast
qed

text \<open>
  C5 as stated fails on an empty nested mapping, which the stage skips (it tests
  \<^verbatim>\<open>if adapter.get('stock_data')\<close>), and on the sub-keys \<^verbatim>\<open>current\<close> and
  \<^verbatim>\<open>original\<close> of \<^verbatim>\<open>price_data\<close>, for which the stage has no default.
\<close>

theorem C5_counterexample:
  "dict_get (defaults_process_item env0
      [(''stock_data'', PDict []), (''price_data'', PDict [(''currency'', PStr ''USD'')])])
      ''stock_data'' = PDict []
   \<and> dict_get (defaults_process_item env0
      [(''stock_data'', PDict []), (''price_data'', PDict [(''currency'', PStr ''USD'')])])
      ''price_data'' = PDict [(''currency'', PStr ''USD''), (''sale_tag'', PNone)]"
  by code_simp

subsection \<open>The tag lists\<close>

lemma py_strip_idem: "py_strip (py_strip s) = py_strip s"
proof -
  define a where "a = dropWhile is_space s"
  define b where "b = dropWhile is_space (rev a)"
  have s: "py_strip s = rev b" by (simp add: py_strip_def a_def b_def)
  have front: "dropWhile is_space (rev b) = rev b"
  proof (cases "b = []")
    case True
    then show ?thesis by simp
  next
    case False
    then have ane: "a \<noteq> []" by (auto simp: b_def)
    have "rev a = takeWhile is_space (rev a) @ b" by (simp add: b_def)
    then have "last (rev a) = last b" using False by (metis last_appendR)
    then have "last b = hd a" by (simp add: last_rev)
    moreover from ane have "\<not> is_space (hd a)" unfolding a_def by (rule hd_dropWhile)
    ultimately have "\<not> is_space (hd (rev b))" by (simp add: hd_rev)
    then show ?thesis by (simp add: dropWhile_eq_self_iff)
  qed
  have "py_strip (rev b) = rev (dropWhile is_space (rev (dropWhile is_space (rev b))))"
    by (simp add: py_strip_def)
  also have "\<dots> = rev (dropWhile is_space b)" by (simp add: front)
  also have "\<dots> = rev b" by (simp add: b_def)
  finally show ?thesis by (simp add: s)
qed

lemma tag_strings_set:
  "set (tag_strings tags) = {py_strip s |s. PStr s \<in> set tags \<and> s \<noteq> []}"
  by (induction tags rule: tag_strings.induct) auto

lemma tag_strings_stripped: "t \<in> set (tag_strings tags) \<Longrightarrow> py_strip t = t"
  by (auto simp: tag_strings_set py_strip_idem)

lemma dedup_first_set: "set (dedup_first seen xs) = set xs - set seen"
  by (induction xs arbitrary: seen) auto

lemma dedup_first_distinct: "distinct (dedup_first seen xs)"
  by (induction xs arbitrary: seen) (auto simp: dedup_first_set)

lemma stripped_distinct:
  assumes "distinct ts" and "\<forall>t \<in> set ts. py_strip t = t"
  shows "distinct (map py_strip ts)"
proof -
  from assms(2) have "map py_strip ts = ts" by (induction ts) auto
  with assms(1) show ?thesis by simp
qed

lemma clean_tags_get:
  assumes "dict_get item ''tags'' = PList tags"
  shows "dict_get (clean_tags item) ''tags'' = PList (map PStr (sort (dedup_first [] (tag_strings tags))))"
  using assms by (cases "tags = []") (simp_all add: clean_tags_def dict_get_dict_set)

lemma clean_marketing_tags_get:
  assumes "dict_get item ''marketing_tags'' = PList tags"
  shows "dict_get (clean_marketing_tags item) ''marketing_tags'' =
           PList (map PStr (sort (remdups (tag_strings tags))))"
  using assms by (cases "tags = []") (simp_all add: clean_marketing_tags_def dict_get_dict_set)

lemma cleaning_tags:
  assumes "cleaning_process_item e item = Inr out" and "dict_get item ''tags'' = PList tags"
  shows "dict_get out ''tags'' = PList (map PStr (sort (dedup_first [] (tag_strings tags))))"
proof -
  from assms(1) obtain item1 item2 where
    a: "clean_image_urls (clean_attributes (clean_marketing_tags (clean_string_fields item))) = Inr item1"
    and b: "clean_assets (clean_tags item1) = Inr item2"
    and c: "clean_numbers e (clean_description item2) = Inr out"
    by (auto simp: cleaning_process_item_def split: sum.splits)
  have "map_of item1 ''tags'' = map_of item ''tags''"
    using clean_image_urls_frame [OF a, of "''tags''"]
    by (simp add: clean_attributes_frame clean_marketing_tags_frame clean_string_fields_frame
        string_fields_def)
  with assms(2) have "dict_get item1 ''tags'' = PList tags" by (simp add: dict_get_def)
  from clean_tags_get [OF this]
  have t: "dict_get (clean_tags item1) ''tags'' =
             PList (map PStr (sort (dedup_first [] (tag_strings tags))))" .
  have "map_of out ''tags'' = map_of (clean_tags item1) ''tags''"
    using clean_assets_frame [OF b, of "''tags''"] clean_numbers_frame [OF c, of "''tags''"]
    by (simp add: cleaning_number_fields_def clean_description_frame)
  with t show ?thesis by (simp add: dict_get_def)
qed

lemma cleaning_marketing_tags:
  assumes "cleaning_process_item e item = Inr out" and "dict_get item ''marketing_tags'' = PList tags"
  shows "dict_get out ''marketing_tags'' = PList (map PStr (sort (remdups (tag_strings tags))))"
proof -
  from assms(1) obtain item1 item2 where
    a: "clean_image_urls (clean_attributes (clean_marketing_tags (clean_string_fields item))) = Inr item1"
    and b: "clean_assets (clean_tags item1) = Inr item2"
    and c: "clean_numbers e (clean_description item2) = Inr out"
    by (auto simp: cleaning_process_item_def split: sum.splits)
  have "map_of (clean_string_fields item) ''marketing_tags'' = map_of item ''marketing_tags''"
    by (simp add: clean_string_fields_frame string_fields_def)
  with assms(2) have "dict_get (clean_string_fields item) ''marketing_tags'' = PList tags"
    by (simp add: dict_get_def)
  from clean_marketing_tags_get [OF this]
  have t: "dict_get (clean_marketing_tags (clean_string_fields item)) ''marketing_tags'' =
             PList (map PStr (sort (remdups (tag_strings tags))))" .
  have "map_of item1 ''marketing_tags'' =
          map_of (clean_marketing_tags (clean_string_fields item)) ''marketing_tags''"
    using clean_image_urls_frame [OF a, of "''marketing_tags''"]
    by (simp add: clean_attributes_frame)
  moreover have "map_of out ''marketing_tags'' = map_of item1 ''marketing_tags''"
    using clean_assets_frame [OF b, of "''marketing_tags''"]
      clean_numbers_frame [OF c, of "''marketing_tags''"]
    by (simp add: cleaning_number_fields_def clean_description_frame clean_tags_frame)
  ultimately show ?thesis using t by (simp add: dict_get_def)
qed

text \<open>
  C8, as the code has it. After the Cleaning stage, a \<^verbatim>\<open>tags\<close> or
  \<^verbatim>\<open>marketing_tags\<close> field that was a list holds the trimmed non-empty string entries
  of that list, each once, in ascending order of the strings (by code point): no two
  entries are equal, and none is equal to another after trimming. The comparison is
  the equality of strings, so entries that differ only in case are both kept.
\<close>

theorem C8_tags_deduplicated_sorted:
  assumes "cleaning_process_item e item = Inr out"
    and "field = ''tags'' \<or> field = ''marketing_tags''"
    and "dict_get item field = PList tags"
  shows "\<exists>ts. dict_get out field = PList (map PStr ts)
           \<and> sorted ts \<and> distinct ts \<and> distinct (map py_strip ts)
           \<and> set ts = {py_strip s |s. PStr s \<in> set tags \<and> s \<noteq> []}"
proof -
  define ts where "ts = (if field = ''tags'' then sort (dedup_first [] (tag_strings tags))
                         else sort (remdups (tag_strings tags)))"
  have g: "dict_get out field = PList (map PStr ts)"
    using assms(2) cleaning_tags [OF assms(1), of tags] cleaning_marketing_tags [OF assms(1), of tags]
      assms(3)
    by (auto simp: ts_def)
  have st: "set ts = set (tag_strings tags)"
    by (simp add: ts_def dedup_first_set)
  have d: "distinct ts" by (simp add: ts_def dedup_first_distinct)
  have so: "sorted ts" by (simp add: ts_def)
  from st have "\<forall>t \<in> set ts. py_strip t = t" by (simp add: tag_strings_stripped)
  with d have "distinct (map py_strip ts)" by (rule stripped_distinct)
  with g so d st show ?thesis by (auto simp: tag_strings_set)
qed

theorem C8_tags_deduplicated_sorted_witness:
  "\<exists>out ts. cleaning_process_item env0
       [(''tags'', PList [PStr ''b'', PStr '' a'', PStr ''a '', PInt 3, PStr []])] = Inr out
     \<and> dict_get out ''tags'' = PList (map PStr ts) \<and> sorted ts \<and> distinct ts
     \<and> set ts = {''a'', ''b''}"
proof -
  let ?tags = "[PStr ''b'', PStr '' a'', PStr ''a '', PInt 3, PStr []]"
  let ?item = "[(''tags'', PList ?tags)]"
  have "\<not> isl (cleaning_process_item env0 ?item)" by code_simp
  then obtain out where n: "cleaning_process_item env0 ?item = Inr out"
    by (cases "cleaning_process_item env0 ?item") simp_all
  have t: "dict_get ?item ''tags'' = PList ?tags" by (simp add: dict_get_def)
  have s: "set (tag_strings ?tags) = {''a'', ''b''}" by code_simp
  from C8_tags_deduplicated_sorted [OF n _ t] obtain ts where
    "dict_get out ''tags'' = PList (map PStr ts)" "sorted ts" "distinct ts"
    "set ts = {py_strip s |s. PStr s \<in> set ?tags \<and> s \<noteq> []}"
    by blast
  with s n show ?thesis unfolding tag_strings_set [symmetric] by blast
qed

text \<open>
  C8 as stated asks that no two entries be equal when compared without regard to
  case. The stage compares the trimmed strings exactly: \<^verbatim>\<open>Sale\<close> and \<^verbatim>\<open>sale\<close>
  are both kept, in \<^verbatim>\<open>tags\<close> and in \<^verbatim>\<open>marketing_tags\<close>.
\<close>

theorem C8_counterexample:
  "field_of (cleaning_process_item env0 [(''tags'', PList [PStr ''sale'', PStr ''Sale''])]) ''tags''
     = Inr (PList [PStr ''Sale'', PStr ''sale''])
   \<and> field_of (cleaning_process_item env0 [(''marketing_tags'', PList [PStr ''sale'', PStr ''Sale''])])
       ''marketing_tags'' = Inr (PList [PStr ''Sale'', PStr ''sale''])
   \<and> py_lower (py_strip ''Sale'') = py_lower (py_strip ''sale'')"
  by code_simp

section \<open>Properties of the characteristics and the variants\<close>

subsection \<open>The merge of the JSON-LD source\<close>

lemma dict_set_not_Nil: "dict_set d k v \<noteq> []"
  by (cases d) (simp_all add: dict_set_def)

lemma dict_update_Cons: "dict_update d ((k, v) # rest) = dict_update (dict_set d k v) rest"
  by (simp add: dict_update_def)

lemma dict_update_keeps: "d \<noteq> [] \<Longrightarrow> dict_update d d2 \<noteq> []"
proof (induction d2 arbitrary: d)
  case Nil
  then show ?case by (simp add: dict_update_def)
next
  case (Cons kv rest)
  obtain k v where kv: "kv = (k, v)" by (cases kv)
  have "dict_update (dict_set d k v) rest \<noteq> []"
    by (rule Cons.IH) (rule dict_set_not_Nil)
  then show ?case by (simp only: kv dict_update_Cons not_False_eq_True)
qed

lemma dict_update_Nil: "(dict_update d d2 = []) = (d = [] \<and> d2 = [])"
proof (cases d2)
  case Nil
  then show ?thesis by (simp add: dict_update_def)
next
  case (Cons kv rest)
  obtain k v where kv: "kv = (k, v)" by (cases kv)
  have "dict_update (dict_set d k v) rest \<noteq> []"
    by (rule dict_update_keeps) (rule dict_set_not_Nil)
  then have "dict_update d d2 \<noteq> []" by (simp only: Cons kv dict_update_Cons not_False_eq_True)
  with Cons show ?thesis by simp
qed

lemma map_of_dict_update:
  "distinct (map fst d2) \<Longrightarrow> map_of (dict_update d d2) = map_of d ++ map_of d2"
proof (induction d2 arbitrary: d)
  case Nil
  then show ?case by (simp add: dict_update_def)
next
  case (Cons kv rest)
  obtain k v where kv: "kv = (k, v)" by (cases kv)
  from Cons.prems kv have k: "map_of rest k = None" and d: "distinct (map fst rest)"
    by (auto simp: map_of_eq_None_iff)
  have "map_of (dict_update d (kv # rest)) = map_of (dict_set d k v) ++ map_of rest"
    unfolding kv dict_update_Cons by (rule Cons.IH [OF d])
  also have "\<dots> = map_of d ++ map_of (kv # rest)"
  proof
    fix x
    show "(map_of (dict_set d k v) ++ map_of rest) x = (map_of d ++ map_of (kv # rest)) x"
      using k by (cases "x = k") (simp_all add: kv map_add_def map_of_dict_set split: option.splits)
  qed
  finally show ?case .
qed

lemma dict_set_distinct: "distinct (map fst d) \<Longrightarrow> distinct (map fst (dict_set d k v))"
  by (simp add: dict_set_def distinct_update)

lemma jsonld_prop_distinct:
  assumes "distinct (map fst chars)"
  shows "distinct (map fst (jsonld_prop str_of pr chars))"
proof (cases pr)
  case (PDict p)
  with assms show ?thesis by (simp add: jsonld_prop_def Let_def dict_set_distinct)
qed (simp_all add: jsonld_prop_def assms)

lemma jsonld_top_distinct:
  assumes "distinct (map fst chars)"
  shows "distinct (map fst (jsonld_top kv chars))"
proof (cases "snd kv")
  case (PStr val)
  with assms show ?thesis by (simp add: jsonld_top_def dict_set_distinct)
qed (simp_all add: jsonld_top_def assms)

lemma fold_distinct:
  assumes "\<And>x acc. distinct (map fst acc) \<Longrightarrow> distinct (map fst (f x acc))"
    and "distinct (map fst (chars :: strdict))"
  shows "distinct (map fst (fold f xs chars))"
  using assms(2) by (induction xs arbitrary: chars) (auto intro: assms(1))

lemma jsonld_script_distinct:
  assumes "distinct (map fst chars)"
  shows "distinct (map fst (case jsonld_script str_of chars parsed of Inl c \<Rightarrow> c | Inr c \<Rightarrow> c))"
proof (cases parsed)
  case None
  with assms show ?thesis by (simp add: jsonld_script_def)
next
  case (Some v)
  show ?thesis
  proof (cases v)
    case (PDict data)
    have a: "distinct (map fst (fold (jsonld_prop str_of) props chars))" for props
      using assms by (intro fold_distinct jsonld_prop_distinct)
    have b: "distinct (map fst (fold jsonld_top data c))" if "distinct (map fst c)" for c
      using that by (intro fold_distinct jsonld_top_distinct)
    show ?thesis
    proof (cases "dict_has data ''additionalProperty''")
      case False
      with Some PDict b [OF assms] show ?thesis by (simp add: jsonld_script_def)
    next
      case True
      show ?thesis
      proof (cases "py_iter (dict_get data ''additionalProperty'')")
        case None
        with True Some PDict assms show ?thesis by (simp add: jsonld_script_def)
      next
        case (Some props)
        with True \<open>parsed = Some v\<close> PDict b [OF a [of props]] show ?thesis
          by (simp add: jsonld_script_def)
      qed
    qed
  qed (simp_all add: jsonld_script_def Some assms)
qed

lemma jsonld_scripts_distinct:
  "distinct (map fst chars) \<Longrightarrow> distinct (map fst (jsonld_scripts str_of chars scripts))"
proof (induction scripts arbitrary: chars)
  case Nil
  then show ?case by simp
next
  case (Cons parsed rest)
  note d = jsonld_script_distinct [OF Cons.prems, of str_of parsed]
  show ?case
  proof (cases "jsonld_script str_of chars parsed")
    case (Inl c)
    with d show ?thesis by simp
  next
    case (Inr c)
    with d have "distinct (map fst c)" by simp
    from Cons.IH [OF this] Inr show ?thesis by simp
  qed
qed

lemma extract_jsonld_distinct:
  "distinct (map fst (extract_jsonld_characteristics str_of scripts))"
  by (simp add: extract_jsonld_characteristics_def jsonld_scripts_distinct)

lemma extract_characteristics_map:
  assumes "distinct (map fst table)" "distinct (map fst lst)" "distinct (map fst divs)"
    and "distinct (map fst jsonld)"
  shows "map_of (extract_characteristics table lst divs jsonld) =
           map_of (if table \<noteq> [] then table else if lst \<noteq> [] then lst else divs) ++ map_of jsonld"
proof -
  define c0 where "c0 = dict_update [] table"
  define c1 where "c1 = (if c0 = [] then dict_update c0 lst else c0)"
  define c2 where "c2 = (if c1 = [] then dict_update c1 divs else c1)"
  have e: "extract_characteristics table lst divs jsonld = dict_update c2 jsonld"
    by (simp add: extract_characteristics_def c0_def c1_def c2_def Let_def)
  have m0: "map_of c0 = map_of table" and n0: "(c0 = []) = (table = [])"
    using assms(1) by (simp_all add: c0_def map_of_dict_update dict_update_Nil)
  have m1: "map_of c1 = map_of (if table \<noteq> [] then table else lst)"
    and n1: "(c1 = []) = (table = [] \<and> lst = [])"
    using assms(2) m0 n0 by (simp_all add: c1_def map_of_dict_update dict_update_Nil)
  have m2: "map_of c2 = map_of (if table \<noteq> [] then table else if lst \<noteq> [] then lst else divs)"
    using assms(3) m1 n1 by (simp add: c2_def map_of_dict_update)
  show ?thesis
    unfolding e by (simp only: map_of_dict_update [OF assms(4)] m2)
qed

text \<open>
  C6, as the code has it. The JSON-LD source is merged last with \<^verbatim>\<open>dict.update\<close>:
  a key it provides ends with the JSON-LD value, also when an earlier structural source
  (table rows, else definition lists, else attribute containers) had produced a value
  for that key; a key it does not provide keeps the value of the first structural
  source that produced any pair.
\<close>

theorem C6_jsonld_merged_last:
  assumes "distinct (map fst table)" "distinct (map fst lst)" "distinct (map fst divs)"
  shows "map_of (extract_characteristics table lst divs
                   (extract_jsonld_characteristics str_of scripts)) k =
           (case map_of (extract_jsonld_characteristics str_of scripts) k of
              Some v \<Rightarrow> Some v
            | None \<Rightarrow> map_of (if table \<noteq> [] then table else if lst \<noteq> [] then lst else divs) k)"
proof -
  have "map_of (extract_characteristics table lst divs
                   (extract_jsonld_characteristics str_of scripts)) =
          map_of (if table \<noteq> [] then table else if lst \<noteq> [] then lst else divs)
            ++ map_of (extract_jsonld_characteristics str_of scripts)"
    using assms extract_jsonld_distinct by (rule extract_characteristics_map)
  then show ?thesis by (simp only: map_add_def)
qed

theorem C6_jsonld_merged_last_witness:
  "map_of (extract_characteristics [(''Volume'', ''0.7'')] [(''Country'', ''FR'')] []
             (extract_jsonld_characteristics str_of0 [Some (PDict [(''sku'', PStr ''A1'')])])) ''Volume''
     = Some ''0.7''
   \<and> map_of (extract_characteristics [(''Volume'', ''0.7'')] [(''Country'', ''FR'')] []
             (extract_jsonld_characteristics str_of0 [Some (PDict [(''sku'', PStr ''A1'')])])) ''sku''
     = Some ''A1''"
proof -
  have j: "extract_jsonld_characteristics str_of0 [Some (PDict [(''sku'', PStr ''A1'')])] = [(''sku'', ''A1'')]"
    by code_simp
  have d: "distinct (map fst [(''Volume'', ''0.7'')])" "distinct (map fst [(''Country'', ''FR'')])"
    "distinct (map fst ([] :: strdict))"
    by simp_all
  from C6_jsonld_merged_last [OF d, of str_of0 "[Some (PDict [(''sku'', PStr ''A1'')])]" "''Volume''"]
    C6_jsonld_merged_last [OF d, of str_of0 "[Some (PDict [(''sku'', PStr ''A1'')])]" "''sku''"]
  show ?thesis by (simp add: j)
qed

text \<open>
  C6 as stated fails: the table gives \<^verbatim>\<open>Brand\<close> the value \<^verbatim>\<open>A\<close>, a JSON-LD script
  has a top-level string \<^verbatim>\<open>Brand\<close> with the value \<^verbatim>\<open>B\<close>, and the result holds \<^verbatim>\<open>B\<close>.
\<close>

theorem C6_counterexample:
  "extract_jsonld_characteristics str_of0 [Some (PDict [(''Brand'', PStr ''B'')])] = [(''Brand'', ''B'')]
   \<and> extract_characteristics [(''Brand'', ''A'')] [] []
       (extract_jsonld_characteristics str_of0 [Some (PDict [(''Brand'', PStr ''B'')])])
     = [(''Brand'', ''B'')]"
  by code_simp

subsection \<open>The count of the JSON variants\<close>

lemma extract_variants_from_json_list:
  assumes "variants_json_of p = Some s" "s \<noteq> []" "loads s = Some data"
    and "variant_list_of data = Some vs"
  shows "extract_variants_from_json loads str_of p = count_valid str_of vs"
  using assms
  by (auto simp: extract_variants_from_json_def variant_list_of_def
      split: pyval.splits option.splits)

lemma detect_variants_cases:
  "detect_variants loads str_of p =
     (if 0 < extract_variants_from_json loads str_of p then extract_variants_from_json loads str_of p
      else length (filter validate_variant (markup_variants loads p)))"
  by (simp add: detect_variants_def Let_def)

text \<open>
  C7, as the code has it. When the embedded JSON text is present and parses to a list of
  entries (a list, or a mapping with a \<^verbatim>\<open>variants\<close> or \<^verbatim>\<open>options\<close> list),
  \<^verbatim>\<open>_extract_variants_from_json\<close> is the number of entries that pass the validation.
  When that number is positive it is the final count, whatever the markup holds; when it
  is zero the final count is the number of valid variants found in the markup.
\<close>

theorem C7_json_variants_count:
  assumes "variants_json_of p = Some s" "s \<noteq> []" "loads s = Some data"
    and "variant_list_of data = Some vs"
  shows "extract_variants_from_json loads str_of p = count_valid str_of vs
       \<and> (0 < count_valid str_of vs \<longrightarrow> detect_variants loads str_of p = count_valid str_of vs)
       \<and> (count_valid str_of vs = 0 \<longrightarrow>
            detect_variants loads str_of p = length (filter validate_variant (markup_variants loads p)))"
  using extract_variants_from_json_list [of p s loads data vs str_of] assms
  by (simp add: detect_variants_cases)

theorem C7_json_variants_count_witness:
  "detect_variants loads0 str_of0
     (page0\<lparr>volume_selector_options := [''500ml'', ''700ml'', ''1l''],
             data_variants := Some ''[\"500ml\", \"XL\"]''\<rparr>) = 1"
proof -
  let ?p = "page0\<lparr>volume_selector_options := [''500ml'', ''700ml'', ''1l''],
             data_variants := Some ''[\"500ml\", \"XL\"]''\<rparr>"
  let ?vs = "[PStr ''500ml'', PStr ''XL'']"
  have a: "variants_json_of ?p = Some ''[\"500ml\", \"XL\"]''" by code_simp
  have b: "''[\"500ml\", \"XL\"]'' \<noteq> []" by simp
  have c: "loads0 ''[\"500ml\", \"XL\"]'' = Some (PList ?vs)" by code_simp
  have d: "variant_list_of (PList ?vs) = Some ?vs" by (simp add: variant_list_of_def)
  have n: "count_valid str_of0 ?vs = 1" by code_simp
  from C7_json_variants_count [of ?p "''[\"500ml\", \"XL\"]''" loads0 "PList ?vs" ?vs str_of0] a b c d n
  show ?thesis by simp
qed

text \<open>
  C7 as stated fails when the JSON list is present and parses but none of its entries
  passes the validation (here the list is empty): the count of that list is 0, and the
  final count is the 2 volume options of the markup.
\<close>

theorem C7_counterexample:
  "variants_json_of (page0\<lparr>volume_selector_options := [''500ml'', ''700ml''],
                           data_variants := Some ''[]''\<rparr>) = Some ''[]''
   \<and> loads0 ''[]'' = Some (PList [])
   \<and> count_valid str_of0 [] = 0
   \<and> detect_variants loads0 str_of0
       (page0\<lparr>volume_selector_options := [''500ml'', ''700ml''], data_variants := Some ''[]''\<rparr>) = 2"
  by code_simp

end
